theory Spec2Isabelle
  imports Main
begin

section \<open>The Santa Claus problem of \<^verbatim>\<open>sc-c.c\<close> as an interleaving transition system\<close>

text \<open>
  The program runs one Santa thread, \<^verbatim>\<open>NUM_REINDEER\<close> reindeer threads and
  \<^verbatim>\<open>NUM_ELVES\<close> elf threads over shared counters, four POSIX semaphores and two
  pthread mutexes. A state of the model holds the shared variables under the names of the
  source and one program counter per thread. A step executes the next statement of one
  thread, atomically; a thread whose next statement is a \<^verbatim>\<open>sem_wait\<close> on a semaphore
  of value 0 or a \<^verbatim>\<open>pthread_mutex_lock\<close> on a held mutex does not move. A run is a
  schedule: the list of the threads that step, in order, so every interleaving of the
  statements is a run, and every finite prefix of an execution is one: \<^verbatim>\<open>main\<close> ends the
  program after \<^verbatim>\<open>SIMULATION_TIME\<close> seconds wherever the threads stand. \<^verbatim>\<open>usleep\<close>
  and \<^verbatim>\<open>printf\<close> only advance the program counter: time and the console are not
  modelled.

  The C \<^verbatim>\<open>int\<close> counters are modelled as unbounded integers. For
  \<^verbatim>\<open>reindeerCount\<close>, \<^verbatim>\<open>elfCount\<close> and \<^verbatim>\<open>waitingElves\<close> the bounds proved below
  show that they stay far from the limits of a machine integer; \<^verbatim>\<open>deliveries\<close> and
  \<^verbatim>\<open>elfConsultations\<close> grow by one per service, which takes 0.5 or 0.3 seconds of the
  30 the program runs, and are assumed not to reach \<^verbatim>\<open>INT_MAX\<close>.
\<close>

subsection \<open>Configuration (lines 30 to 32)\<close>

abbreviation NUM_REINDEER :: nat where "NUM_REINDEER \<equiv> 9"
abbreviation NUM_ELVES :: nat where "NUM_ELVES \<equiv> 10"
abbreviation ELF_GROUP_SIZE :: nat where "ELF_GROUP_SIZE \<equiv> 3"

subsection \<open>Threads and program counters\<close>

datatype thread = Santa | Reindeer nat | Elf nat

text \<open>
  Program counters of \<^verbatim>\<open>santaThread\<close>. Each names the statement the thread executes
  next: \<open>S_WaitSanta\<close> line 64, \<open>S_WaitMutex\<close> line 66, \<open>S_LockR\<close> line 69,
  \<open>S_CheckR\<close> line 70, \<open>S_PostR i\<close> the loop of lines 75 to 77 with loop variable \<open>i\<close>,
  \<open>S_ResetR\<close> line 79, \<open>S_UnlockR\<close> line 80, \<open>S_SleepR\<close> line 82,
  \<open>S_IncDeliveries\<close> line 83, \<open>S_UnlockR_else\<close> line 88, \<open>S_LockE\<close> line 91,
  \<open>S_CheckE\<close> line 92, \<open>S_PostE i\<close> the loop of lines 97 to 99, \<open>S_ResetE\<close> line 101,
  \<open>S_UnlockE\<close> line 102, \<open>S_SleepE\<close> line 104, \<open>S_IncConsult\<close> line 105,
  \<open>S_UnlockE_else\<close> line 109, \<open>S_PostMutex\<close> line 113.
\<close>

datatype spc =
    S_WaitSanta | S_WaitMutex | S_LockR | S_CheckR
  | S_PostR nat | S_ResetR | S_UnlockR | S_SleepR | S_IncDeliveries
  | S_UnlockR_else | S_LockE | S_CheckE
  | S_PostE nat | S_ResetE | S_UnlockE | S_SleepE | S_IncConsult
  | S_UnlockE_else | S_PostMutex

text \<open>
  Program counters of \<^verbatim>\<open>reindeerThread\<close>: \<open>R_Vacation\<close> line 125, \<open>R_Lock\<close> line 128,
  \<open>R_Inc\<close> line 129, \<open>R_Check\<close> line 131, \<open>R_PostSanta\<close> line 133, \<open>R_Unlock\<close>
  line 136, \<open>R_Wait\<close> line 139, \<open>R_Harness\<close> line 141.
\<close>

datatype rpc =
  R_Vacation | R_Lock | R_Inc | R_Check | R_PostSanta | R_Unlock | R_Wait | R_Harness

text \<open>
  Program counters of \<^verbatim>\<open>elfThread\<close>: \<open>E_Work\<close> line 154, \<open>E_Lock\<close> line 156,
  \<open>E_Inc\<close> line 157, \<open>E_Check\<close> line 159, \<open>E_SetCount\<close> line 161, \<open>E_ResetWaiting\<close>
  line 162, \<open>E_PostSanta\<close> line 163, \<open>E_Unlock\<close> line 168, \<open>E_Wait\<close> line 171,
  \<open>E_Help\<close> line 173.
\<close>

datatype epc =
    E_Work | E_Lock | E_Inc | E_Check | E_SetCount | E_ResetWaiting | E_PostSanta
  | E_Unlock | E_Wait | E_Help

subsection \<open>The shared state (lines 36 to 52)\<close>

text \<open>
  A semaphore is its value. A mutex is its owner, \<open>None\<close> when it is free.
\<close>

record state =
  santaSem :: nat
  reindeerSem :: nat
  elfSem :: nat
  santaMutex :: nat
  reindeerMutex :: "thread option"
  elfMutex :: "thread option"
  reindeerCount :: int
  elfCount :: int
  waitingElves :: int
  deliveries :: int
  elfConsultations :: int
  spc :: spc
  rpc :: "nat \<Rightarrow> rpc"
  epc :: "nat \<Rightarrow> epc"

text \<open>
  The state when the threads start: the counters as initialised at lines 46 to 52, the
  semaphores as \<^verbatim>\<open>main\<close> initialises them at lines 195 to 198, both mutexes free, every
  thread at the head of its loop.
\<close>

definition init :: state where
  "init = \<lparr> santaSem = 0, reindeerSem = 0, elfSem = 0, santaMutex = 1,
            reindeerMutex = None, elfMutex = None,
            reindeerCount = 0, elfCount = 0, waitingElves = 0,
            deliveries = 0, elfConsultations = 0,
            spc = S_WaitSanta, rpc = (\<lambda>_. R_Vacation), epc = (\<lambda>_. E_Work) \<rparr>"

subsection \<open>One statement of each thread\<close>

text \<open>
  The next statement of \<^verbatim>\<open>santaThread\<close> (the loop of lines 62 to 114). A step of a
  \<^verbatim>\<open>for\<close> loop is its test together with the post and the increment of \<open>i\<close> when the
  test succeeds, and the exit from the loop when it fails.
\<close>

definition santaThread_step :: "state \<Rightarrow> state" where
  "santaThread_step s =
    (case spc s of
       S_WaitSanta \<Rightarrow>
         if 0 < santaSem s then s\<lparr>santaSem := santaSem s - 1, spc := S_WaitMutex\<rparr> else s
     | S_WaitMutex \<Rightarrow>
         if 0 < santaMutex s then s\<lparr>santaMutex := santaMutex s - 1, spc := S_LockR\<rparr> else s
     | S_LockR \<Rightarrow>
         if reindeerMutex s = None then s\<lparr>reindeerMutex := Some Santa, spc := S_CheckR\<rparr>
         else s
     | S_CheckR \<Rightarrow>
         if reindeerCount s = int NUM_REINDEER then s\<lparr>spc := S_PostR 0\<rparr>
         else s\<lparr>spc := S_UnlockR_else\<rparr>
     | S_PostR i \<Rightarrow>
         if i < NUM_REINDEER then s\<lparr>reindeerSem := reindeerSem s + 1, spc := S_PostR (i + 1)\<rparr>
         else s\<lparr>spc := S_ResetR\<rparr>
     | S_ResetR \<Rightarrow> s\<lparr>reindeerCount := 0, spc := S_UnlockR\<rparr>
     | S_UnlockR \<Rightarrow> s\<lparr>reindeerMutex := None, spc := S_SleepR\<rparr>
     | S_SleepR \<Rightarrow> s\<lparr>spc := S_IncDeliveries\<rparr>
     | S_IncDeliveries \<Rightarrow> s\<lparr>deliveries := deliveries s + 1, spc := S_PostMutex\<rparr>
     | S_UnlockR_else \<Rightarrow> s\<lparr>reindeerMutex := None, spc := S_LockE\<rparr>
     | S_LockE \<Rightarrow>
         if elfMutex s = None then s\<lparr>elfMutex := Some Santa, spc := S_CheckE\<rparr> else s
     | S_CheckE \<Rightarrow>
         if elfCount s = int ELF_GROUP_SIZE then s\<lparr>spc := S_PostE 0\<rparr>
         else s\<lparr>spc := S_UnlockE_else\<rparr>
     | S_PostE i \<Rightarrow>
         if i < ELF_GROUP_SIZE then s\<lparr>elfSem := elfSem s + 1, spc := S_PostE (i + 1)\<rparr>
         else s\<lparr>spc := S_ResetE\<rparr>
     | S_ResetE \<Rightarrow> s\<lparr>elfCount := 0, spc := S_UnlockE\<rparr>
     | S_UnlockE \<Rightarrow> s\<lparr>elfMutex := None, spc := S_SleepE\<rparr>
     | S_SleepE \<Rightarrow> s\<lparr>spc := S_IncConsult\<rparr>
     | S_IncConsult \<Rightarrow> s\<lparr>elfConsultations := elfConsultations s + 1, spc := S_PostMutex\<rparr>
     | S_UnlockE_else \<Rightarrow> s\<lparr>elfMutex := None, spc := S_PostMutex\<rparr>
     | S_PostMutex \<Rightarrow> s\<lparr>santaMutex := santaMutex s + 1, spc := S_WaitSanta\<rparr>)"

text \<open>The next statement of reindeer \<open>i\<close> (the loop of lines 123 to 143).\<close>

definition reindeerThread_step :: "nat \<Rightarrow> state \<Rightarrow> state" where
  "reindeerThread_step i s =
    (case rpc s i of
       R_Vacation \<Rightarrow> s\<lparr>rpc := (rpc s)(i := R_Lock)\<rparr>
     | R_Lock \<Rightarrow>
         if reindeerMutex s = None
         then s\<lparr>reindeerMutex := Some (Reindeer i), rpc := (rpc s)(i := R_Inc)\<rparr>
         else s
     | R_Inc \<Rightarrow> s\<lparr>reindeerCount := reindeerCount s + 1, rpc := (rpc s)(i := R_Check)\<rparr>
     | R_Check \<Rightarrow>
         if reindeerCount s = int NUM_REINDEER then s\<lparr>rpc := (rpc s)(i := R_PostSanta)\<rparr>
         else s\<lparr>rpc := (rpc s)(i := R_Unlock)\<rparr>
     | R_PostSanta \<Rightarrow> s\<lparr>santaSem := santaSem s + 1, rpc := (rpc s)(i := R_Unlock)\<rparr>
     | R_Unlock \<Rightarrow> s\<lparr>reindeerMutex := None, rpc := (rpc s)(i := R_Wait)\<rparr>
     | R_Wait \<Rightarrow>
         if 0 < reindeerSem s
         then s\<lparr>reindeerSem := reindeerSem s - 1, rpc := (rpc s)(i := R_Harness)\<rparr>
         else s
     | R_Harness \<Rightarrow> s\<lparr>rpc := (rpc s)(i := R_Vacation)\<rparr>)"

text \<open>The next statement of elf \<open>j\<close> (the loop of lines 152 to 175).\<close>

definition elfThread_step :: "nat \<Rightarrow> state \<Rightarrow> state" where
  "elfThread_step j s =
    (case epc s j of
       E_Work \<Rightarrow> s\<lparr>epc := (epc s)(j := E_Lock)\<rparr>
     | E_Lock \<Rightarrow>
         if elfMutex s = None
         then s\<lparr>elfMutex := Some (Elf j), epc := (epc s)(j := E_Inc)\<rparr>
         else s
     | E_Inc \<Rightarrow> s\<lparr>waitingElves := waitingElves s + 1, epc := (epc s)(j := E_Check)\<rparr>
     | E_Check \<Rightarrow>
         if waitingElves s = int ELF_GROUP_SIZE then s\<lparr>epc := (epc s)(j := E_SetCount)\<rparr>
         else s\<lparr>epc := (epc s)(j := E_Unlock)\<rparr>
     | E_SetCount \<Rightarrow>
         s\<lparr>elfCount := int ELF_GROUP_SIZE, epc := (epc s)(j := E_ResetWaiting)\<rparr>
     | E_ResetWaiting \<Rightarrow> s\<lparr>waitingElves := 0, epc := (epc s)(j := E_PostSanta)\<rparr>
     | E_PostSanta \<Rightarrow> s\<lparr>santaSem := santaSem s + 1, epc := (epc s)(j := E_Unlock)\<rparr>
     | E_Unlock \<Rightarrow> s\<lparr>elfMutex := None, epc := (epc s)(j := E_Wait)\<rparr>
     | E_Wait \<Rightarrow>
         if 0 < elfSem s then s\<lparr>elfSem := elfSem s - 1, epc := (epc s)(j := E_Help)\<rparr>
         else s
     | E_Help \<Rightarrow> s\<lparr>epc := (epc s)(j := E_Work)\<rparr>)"

text \<open>
  \<^verbatim>\<open>main\<close> creates the reindeer threads 0 to 8 and the elf threads 0 to 9 (lines 206
  and 214); a thread that does not exist never moves.
\<close>

fun step :: "thread \<Rightarrow> state \<Rightarrow> state" where
  "step Santa s = santaThread_step s"
| "step (Reindeer i) s = (if i < NUM_REINDEER then reindeerThread_step i s else s)"
| "step (Elf j) s = (if j < NUM_ELVES then elfThread_step j s else s)"

subsection \<open>Runs and traces\<close>

text \<open>\<open>run sched s\<close> is the state after the threads of \<open>sched\<close> have stepped in turn.\<close>

fun run :: "thread list \<Rightarrow> state \<Rightarrow> state" where
  "run [] s = s"
| "run (t # ts) s = run ts (step t s)"

text \<open>
  The trace of a run lists, for every scheduled step, the thread and the state it
  stepped from.
\<close>

fun trace :: "thread list \<Rightarrow> state \<Rightarrow> (thread \<times> state) list" where
  "trace [] s = []"
| "trace (t # ts) s = (t, s) # trace ts (step t s)"

text \<open>
  \<open>count_ev P tr\<close> is the number of steps of the trace \<open>tr\<close> at which \<open>P\<close> holds of the
  stepping thread and the state it steps from.
\<close>

definition count_ev :: "(thread \<Rightarrow> state \<Rightarrow> bool) \<Rightarrow> (thread \<times> state) list \<Rightarrow> nat" where
  "count_ev P tr = length (filter (\<lambda>(t, s). P t s) tr)"

subsection \<open>The arrival of one worker, run without interruption\<close>




subsection \<open>Events of a trace\<close>

text \<open>
  A step posts a semaphore when it raises its value by one, and clears a counter when
  it takes it from a value other than 0 to 0.
\<close>

definition posts_reindeerSem :: "thread \<Rightarrow> state \<Rightarrow> bool" where
  "posts_reindeerSem t s \<longleftrightarrow> reindeerSem (step t s) = reindeerSem s + 1"

definition posts_elfSem :: "thread \<Rightarrow> state \<Rightarrow> bool" where
  "posts_elfSem t s \<longleftrightarrow> elfSem (step t s) = elfSem s + 1"



text \<open>
  The service action of Santa is the \<^verbatim>\<open>usleep\<close> of line 82 (a delivery) or of line 104
  (a consultation).
\<close>

definition service_reindeer :: "thread \<Rightarrow> state \<Rightarrow> bool" where
  "service_reindeer t s \<longleftrightarrow> t = Santa \<and> spc s = S_SleepR"

definition service_elves :: "thread \<Rightarrow> state \<Rightarrow> bool" where
  "service_elves t s \<longleftrightarrow> t = Santa \<and> spc s = S_SleepE"

text \<open>
  Santa commits to a service when the test of line 70 or of line 92 succeeds, and the
  service is over when the counter of line 83 or line 105 has been incremented.
\<close>

definition service_begins :: "thread \<Rightarrow> state \<Rightarrow> bool" where
  "service_begins t s \<longleftrightarrow>
     t = Santa \<and>
     (spc s = S_CheckR \<and> reindeerCount s = int NUM_REINDEER \<or>
      spc s = S_CheckE \<and> elfCount s = int ELF_GROUP_SIZE)"

definition service_ends :: "thread \<Rightarrow> state \<Rightarrow> bool" where
  "service_ends t s \<longleftrightarrow> t = Santa \<and> (spc s = S_IncDeliveries \<or> spc s = S_IncConsult)"

fun reindeer_branch :: "spc \<Rightarrow> bool" where
  "reindeer_branch (S_PostR i) = True"
| "reindeer_branch S_ResetR = True"
| "reindeer_branch S_UnlockR = True"
| "reindeer_branch S_SleepR = True"
| "reindeer_branch S_IncDeliveries = True"
| "reindeer_branch _ = False"

fun elf_branch :: "spc \<Rightarrow> bool" where
  "elf_branch (S_PostE i) = True"
| "elf_branch S_ResetE = True"
| "elf_branch S_UnlockE = True"
| "elf_branch S_SleepE = True"
| "elf_branch S_IncConsult = True"
| "elf_branch _ = False"

definition in_service :: "state \<Rightarrow> bool" where
  "in_service s \<longleftrightarrow> reindeer_branch (spc s) \<or> elf_branch (spc s)"

text \<open>
  Santa is inside the section guarded by \<^verbatim>\<open>santaMutex\<close> from after line 66 until it
  has executed line 113.
\<close>

fun santa_in_cs :: "spc \<Rightarrow> bool" where
  "santa_in_cs S_WaitSanta = False"
| "santa_in_cs S_WaitMutex = False"
| "santa_in_cs _ = True"

text \<open>
  An arrival is a step that increments the arrival counter of a gate; the signal of a
  last arrival is a post of \<^verbatim>\<open>santaSem\<close> by a worker of that kind.
\<close>

fun is_reindeer :: "thread \<Rightarrow> bool" where
  "is_reindeer (Reindeer i) = True"
| "is_reindeer _ = False"

fun is_elf :: "thread \<Rightarrow> bool" where
  "is_elf (Elf j) = True"
| "is_elf _ = False"

definition arrives_reindeer :: "thread \<Rightarrow> state \<Rightarrow> bool" where
  "arrives_reindeer t s \<longleftrightarrow> reindeerCount (step t s) = reindeerCount s + 1"

definition signals_reindeer :: "thread \<Rightarrow> state \<Rightarrow> bool" where
  "signals_reindeer t s \<longleftrightarrow> is_reindeer t \<and> santaSem (step t s) = santaSem s + 1"

definition arrives_elf :: "thread \<Rightarrow> state \<Rightarrow> bool" where
  "arrives_elf t s \<longleftrightarrow> waitingElves (step t s) = waitingElves s + 1"

definition signals_elf :: "thread \<Rightarrow> state \<Rightarrow> bool" where
  "signals_elf t s \<longleftrightarrow> is_elf t \<and> santaSem (step t s) = santaSem s + 1"

text \<open>
  The signal of a cohort is pending while the worker that holds the gate's mutex has
  incremented the counter to the capacity and has not yet posted \<^verbatim>\<open>santaSem\<close>.
  \<open>openR\<close> and \<open>openE\<close> count the arrivals that no signal has yet answered.
\<close>

fun signal_pendingR :: "thread option \<Rightarrow> (nat \<Rightarrow> rpc) \<Rightarrow> bool" where
  "signal_pendingR (Some (Reindeer i)) f \<longleftrightarrow> f i = R_Check \<or> f i = R_PostSanta"
| "signal_pendingR _ f \<longleftrightarrow> False"

fun signal_pendingE :: "thread option \<Rightarrow> (nat \<Rightarrow> epc) \<Rightarrow> bool" where
  "signal_pendingE (Some (Elf j)) f \<longleftrightarrow> f j = E_PostSanta"
| "signal_pendingE _ f \<longleftrightarrow> False"

definition openR :: "state \<Rightarrow> int" where
  "openR s =
     (if reindeerCount s = int NUM_REINDEER \<and> \<not> signal_pendingR (reindeerMutex s) (rpc s)
      then 0 else reindeerCount s)"

definition openE :: "state \<Rightarrow> int" where
  "openE s =
     waitingElves s + (if signal_pendingE (elfMutex s) (epc s) then int ELF_GROUP_SIZE else 0)"

text \<open>
  How far Santa has come in the release loop it is executing: \<open>releasedR\<close> and
  \<open>releasedE\<close> count the posts of the loop until the counter is cleared, \<open>aheadR\<close> and
  \<open>aheadE\<close> until the service action has been performed.
\<close>

fun releasedR :: "spc \<Rightarrow> nat" where
  "releasedR (S_PostR i) = i"
| "releasedR S_ResetR = NUM_REINDEER"
| "releasedR _ = 0"


fun aheadR :: "spc \<Rightarrow> nat" where
  "aheadR (S_PostR i) = i"
| "aheadR S_ResetR = NUM_REINDEER"
| "aheadR S_UnlockR = NUM_REINDEER"
| "aheadR S_SleepR = NUM_REINDEER"
| "aheadR _ = 0"

fun aheadE :: "spc \<Rightarrow> nat" where
  "aheadE (S_PostE i) = i"
| "aheadE S_ResetE = ELF_GROUP_SIZE"
| "aheadE S_UnlockE = ELF_GROUP_SIZE"
| "aheadE S_SleepE = ELF_GROUP_SIZE"
| "aheadE _ = 0"

subsection \<open>The current pass of Santa\<close>

text \<open>
  \<open>santa_pass tr\<close> lists the states from which Santa has stepped since it last stepped
  from the \<^verbatim>\<open>sem_wait(&santaSem)\<close> of line 64: the steps of the iteration it is in. The
  values Santa reads at its two decision points are the values of \<^verbatim>\<open>reindeerCount\<close> at
  the steps of line 70 and of \<^verbatim>\<open>elfCount\<close> at the steps of line 92.
\<close>

fun pass_upd :: "state list \<Rightarrow> thread \<times> state \<Rightarrow> state list" where
  "pass_upd p (Santa, s) = (if spc s = S_WaitSanta then [] else p @ [s])"
| "pass_upd p (Reindeer i, s) = p"
| "pass_upd p (Elf j, s) = p"

definition santa_pass :: "(thread \<times> state) list \<Rightarrow> state list" where
  "santa_pass tr = foldl pass_upd [] tr"

definition reads_reindeerCount :: "state list \<Rightarrow> int list" where
  "reads_reindeerCount p = map reindeerCount (filter (\<lambda>a. spc a = S_CheckR) p)"

definition reads_elfCount :: "state list \<Rightarrow> int list" where
  "reads_elfCount p = map elfCount (filter (\<lambda>a. spc a = S_CheckE) p)"

text \<open>\<open>saw_other v rs\<close>: exactly one value was read, and it is not \<open>v\<close>.\<close>

fun saw_other :: "int \<Rightarrow> int list \<Rightarrow> bool" where
  "saw_other v [r] \<longleftrightarrow> r \<noteq> v"
| "saw_other v _ \<longleftrightarrow> False"

text \<open>
  A step leaves the shared protocol state unchanged when the two release semaphores and
  the five counters are the same after it.
\<close>

definition shared_unchanged :: "state \<Rightarrow> state \<Rightarrow> bool" where
  "shared_unchanged a b \<longleftrightarrow>
     reindeerSem b = reindeerSem a \<and> elfSem b = elfSem a \<and>
     reindeerCount b = reindeerCount a \<and> elfCount b = elfCount a \<and>
     waitingElves b = waitingElves a \<and> deliveries b = deliveries a \<and>
     elfConsultations b = elfConsultations a"

subsection \<open>Invariants\<close>

text \<open>
  Where each thread stands while it holds \<^verbatim>\<open>reindeerMutex\<close> or \<^verbatim>\<open>elfMutex\<close>.
\<close>

fun santa_holdsR :: "spc \<Rightarrow> bool" where
  "santa_holdsR S_CheckR = True"
| "santa_holdsR (S_PostR i) = True"
| "santa_holdsR S_ResetR = True"
| "santa_holdsR S_UnlockR = True"
| "santa_holdsR S_UnlockR_else = True"
| "santa_holdsR _ = False"

fun santa_holdsE :: "spc \<Rightarrow> bool" where
  "santa_holdsE S_CheckE = True"
| "santa_holdsE (S_PostE i) = True"
| "santa_holdsE S_ResetE = True"
| "santa_holdsE S_UnlockE = True"
| "santa_holdsE S_UnlockE_else = True"
| "santa_holdsE _ = False"

fun reindeer_holds :: "rpc \<Rightarrow> bool" where
  "reindeer_holds R_Inc = True"
| "reindeer_holds R_Check = True"
| "reindeer_holds R_PostSanta = True"
| "reindeer_holds R_Unlock = True"
| "reindeer_holds _ = False"

fun elf_holds :: "epc \<Rightarrow> bool" where
  "elf_holds E_Inc = True"
| "elf_holds E_Check = True"
| "elf_holds E_SetCount = True"
| "elf_holds E_ResetWaiting = True"
| "elf_holds E_PostSanta = True"
| "elf_holds E_Unlock = True"
| "elf_holds _ = False"

text \<open>
  The owner of a mutex is the one thread inside the critical section, and nobody is
  inside when the mutex is free.
\<close>

fun ownerR_ok :: "thread option \<Rightarrow> spc \<Rightarrow> (nat \<Rightarrow> rpc) \<Rightarrow> bool" where
  "ownerR_ok None p f \<longleftrightarrow> \<not> santa_holdsR p \<and> (\<forall>i<NUM_REINDEER. \<not> reindeer_holds (f i))"
| "ownerR_ok (Some Santa) p f \<longleftrightarrow>
     santa_holdsR p \<and> (\<forall>i<NUM_REINDEER. \<not> reindeer_holds (f i))"
| "ownerR_ok (Some (Reindeer i)) p f \<longleftrightarrow>
     \<not> santa_holdsR p \<and> i < NUM_REINDEER \<and> reindeer_holds (f i) \<and>
     (\<forall>k<NUM_REINDEER. k \<noteq> i \<longrightarrow> \<not> reindeer_holds (f k))"
| "ownerR_ok (Some (Elf j)) p f \<longleftrightarrow> False"

fun ownerE_ok :: "thread option \<Rightarrow> spc \<Rightarrow> (nat \<Rightarrow> epc) \<Rightarrow> bool" where
  "ownerE_ok None p f \<longleftrightarrow> \<not> santa_holdsE p \<and> (\<forall>j<NUM_ELVES. \<not> elf_holds (f j))"
| "ownerE_ok (Some Santa) p f \<longleftrightarrow> santa_holdsE p \<and> (\<forall>j<NUM_ELVES. \<not> elf_holds (f j))"
| "ownerE_ok (Some (Elf j)) p f \<longleftrightarrow>
     \<not> santa_holdsE p \<and> j < NUM_ELVES \<and> elf_holds (f j) \<and>
     (\<forall>k<NUM_ELVES. k \<noteq> j \<longrightarrow> \<not> elf_holds (f k))"
| "ownerE_ok (Some (Reindeer i)) p f \<longleftrightarrow> False"

definition mutexR_inv :: "state \<Rightarrow> bool" where
  "mutexR_inv s = ownerR_ok (reindeerMutex s) (spc s) (rpc s)"

definition mutexE_inv :: "state \<Rightarrow> bool" where
  "mutexE_inv s = ownerE_ok (elfMutex s) (spc s) (epc s)"

definition mutexS_inv :: "state \<Rightarrow> bool" where
  "mutexS_inv s \<longleftrightarrow> santaMutex s = (if santa_in_cs (spc s) then 0 else 1)"

text \<open>What the holder of \<^verbatim>\<open>reindeerMutex\<close> knows about \<^verbatim>\<open>reindeerCount\<close>.\<close>

fun santa_valR :: "spc \<Rightarrow> int \<Rightarrow> bool" where
  "santa_valR (S_PostR i) c \<longleftrightarrow> i \<le> NUM_REINDEER \<and> c = int NUM_REINDEER"
| "santa_valR S_ResetR c \<longleftrightarrow> c = int NUM_REINDEER"
| "santa_valR S_UnlockR_else c \<longleftrightarrow> c \<noteq> int NUM_REINDEER"
| "santa_valR _ c \<longleftrightarrow> True"

fun holderR_val :: "thread option \<Rightarrow> (nat \<Rightarrow> rpc) \<Rightarrow> spc \<Rightarrow> int \<Rightarrow> bool" where
  "holderR_val (Some (Reindeer i)) f p c \<longleftrightarrow> (f i = R_PostSanta \<longrightarrow> c = int NUM_REINDEER)"
| "holderR_val (Some Santa) f p c \<longleftrightarrow> santa_valR p c"
| "holderR_val _ f p c \<longleftrightarrow> True"

definition valR_inv :: "state \<Rightarrow> bool" where
  "valR_inv s \<longleftrightarrow>
     0 \<le> reindeerCount s \<and>
     holderR_val (reindeerMutex s) (rpc s) (spc s) (reindeerCount s)"

text \<open>
  What Santa knows about \<^verbatim>\<open>elfCount\<close> in its release loop, and what the holder of
  \<^verbatim>\<open>elfMutex\<close> knows about \<^verbatim>\<open>waitingElves\<close>.
\<close>

fun santa_valE :: "spc \<Rightarrow> int \<Rightarrow> bool" where
  "santa_valE (S_PostE i) c \<longleftrightarrow> i \<le> ELF_GROUP_SIZE \<and> c = int ELF_GROUP_SIZE"
| "santa_valE S_ResetE c \<longleftrightarrow> c = int ELF_GROUP_SIZE"
| "santa_valE _ c \<longleftrightarrow> True"

fun elf_val :: "epc \<Rightarrow> int \<Rightarrow> int \<Rightarrow> bool" where
  "elf_val E_Check w c \<longleftrightarrow> 1 \<le> w \<and> w \<le> 3"
| "elf_val E_SetCount w c \<longleftrightarrow> w = 3"
| "elf_val E_ResetWaiting w c \<longleftrightarrow> w = 3 \<and> c = 3"
| "elf_val E_PostSanta w c \<longleftrightarrow> w = 0 \<and> c = 3"
| "elf_val _ w c \<longleftrightarrow> 0 \<le> w \<and> w \<le> 2"

fun holderE_val :: "thread option \<Rightarrow> (nat \<Rightarrow> epc) \<Rightarrow> int \<Rightarrow> int \<Rightarrow> bool" where
  "holderE_val (Some (Elf j)) f w c = elf_val (f j) w c"
| "holderE_val _ f w c \<longleftrightarrow> 0 \<le> w \<and> w \<le> 2"

definition valE_inv :: "state \<Rightarrow> bool" where
  "valE_inv s \<longleftrightarrow>
     (elfCount s = 0 \<or> elfCount s = int ELF_GROUP_SIZE) \<and>
     santa_valE (spc s) (elfCount s) \<and>
     holderE_val (elfMutex s) (epc s) (waitingElves s) (elfCount s)"

text \<open>
  The reindeer that have arrived and not yet passed their \<^verbatim>\<open>sem_wait\<close> are as many
  as \<^verbatim>\<open>reindeerCount\<close> and the tokens of \<^verbatim>\<open>reindeerSem\<close> together, up to the posts
  of a release loop in progress.
\<close>

definition count_pcs :: "('p \<Rightarrow> bool) \<Rightarrow> (nat \<Rightarrow> 'p) \<Rightarrow> nat \<Rightarrow> nat" where
  "count_pcs P f n = length (filter (\<lambda>i. P (f i)) [0..<n])"

fun arrived :: "rpc \<Rightarrow> bool" where
  "arrived R_Check = True"
| "arrived R_PostSanta = True"
| "arrived R_Unlock = True"
| "arrived R_Wait = True"
| "arrived _ = False"

definition countR_inv :: "state \<Rightarrow> bool" where
  "countR_inv s \<longleftrightarrow>
     reindeerCount s + int (reindeerSem s) =
     int (count_pcs arrived (rpc s) NUM_REINDEER) + int (releasedR (spc s))"

definition protocol_inv :: "state \<Rightarrow> bool" where
  "protocol_inv s \<longleftrightarrow> mutexR_inv s \<and> mutexE_inv s \<and> mutexS_inv s \<and> valR_inv s \<and> valE_inv s \<and> countR_inv s"

text \<open>
  The program counter of Santa determines what it has read in the current pass.
\<close>

fun pass_rel :: "spc \<Rightarrow> int list \<Rightarrow> int list \<Rightarrow> bool" where
  "pass_rel S_WaitSanta rs es \<longleftrightarrow> True"
| "pass_rel S_WaitMutex rs es \<longleftrightarrow> rs = [] \<and> es = []"
| "pass_rel S_LockR rs es \<longleftrightarrow> rs = [] \<and> es = []"
| "pass_rel S_CheckR rs es \<longleftrightarrow> rs = [] \<and> es = []"
| "pass_rel (S_PostR i) rs es \<longleftrightarrow> rs = [int NUM_REINDEER] \<and> es = []"
| "pass_rel S_ResetR rs es \<longleftrightarrow> rs = [int NUM_REINDEER] \<and> es = []"
| "pass_rel S_UnlockR rs es \<longleftrightarrow> rs = [int NUM_REINDEER] \<and> es = []"
| "pass_rel S_SleepR rs es \<longleftrightarrow> rs = [int NUM_REINDEER] \<and> es = []"
| "pass_rel S_IncDeliveries rs es \<longleftrightarrow> rs = [int NUM_REINDEER] \<and> es = []"
| "pass_rel S_UnlockR_else rs es \<longleftrightarrow> saw_other (int NUM_REINDEER) rs \<and> es = []"
| "pass_rel S_LockE rs es \<longleftrightarrow> saw_other (int NUM_REINDEER) rs \<and> es = []"
| "pass_rel S_CheckE rs es \<longleftrightarrow> saw_other (int NUM_REINDEER) rs \<and> es = []"
| "pass_rel (S_PostE i) rs es \<longleftrightarrow>
     saw_other (int NUM_REINDEER) rs \<and> es = [int ELF_GROUP_SIZE]"
| "pass_rel S_ResetE rs es \<longleftrightarrow> saw_other (int NUM_REINDEER) rs \<and> es = [int ELF_GROUP_SIZE]"
| "pass_rel S_UnlockE rs es \<longleftrightarrow> saw_other (int NUM_REINDEER) rs \<and> es = [int ELF_GROUP_SIZE]"
| "pass_rel S_SleepE rs es \<longleftrightarrow> saw_other (int NUM_REINDEER) rs \<and> es = [int ELF_GROUP_SIZE]"
| "pass_rel S_IncConsult rs es \<longleftrightarrow>
     saw_other (int NUM_REINDEER) rs \<and> es = [int ELF_GROUP_SIZE]"
| "pass_rel S_UnlockE_else rs es \<longleftrightarrow>
     saw_other (int NUM_REINDEER) rs \<and> saw_other (int ELF_GROUP_SIZE) es"
| "pass_rel S_PostMutex rs es \<longleftrightarrow>
     rs = [int NUM_REINDEER] \<and> es = [] \<or>
     saw_other (int NUM_REINDEER) rs \<and> (es = [int ELF_GROUP_SIZE] \<or> saw_other (int ELF_GROUP_SIZE) es)"

definition quiet :: "state list \<Rightarrow> bool" where
  "quiet p = list_all (\<lambda>a. shared_unchanged a (step Santa a)) p"

definition neither_ready :: "state list \<Rightarrow> bool" where
  "neither_ready p \<longleftrightarrow>
     saw_other (int NUM_REINDEER) (reads_reindeerCount p) \<and>
     saw_other (int ELF_GROUP_SIZE) (reads_elfCount p)"

fun noop_path :: "spc \<Rightarrow> bool" where
  "noop_path S_WaitMutex = True"
| "noop_path S_LockR = True"
| "noop_path S_CheckR = True"
| "noop_path S_UnlockR_else = True"
| "noop_path S_LockE = True"
| "noop_path S_CheckE = True"
| "noop_path S_UnlockE_else = True"
| "noop_path _ = False"

fun after_noop :: "spc \<Rightarrow> bool" where
  "after_noop S_UnlockE_else = True"
| "after_noop S_PostMutex = True"
| "after_noop S_WaitSanta = True"
| "after_noop _ = False"

definition noop_rel :: "state \<Rightarrow> state list \<Rightarrow> bool" where
  "noop_rel s p \<longleftrightarrow>
     (noop_path (spc s) \<longrightarrow> quiet p) \<and>
     (neither_ready p \<longrightarrow> quiet p \<and> after_noop (spc s))"

subsection \<open>Schedules\<close>

text \<open>
  A worker that starts at the head of its loop and is not the last of its cohort needs 5
  statements to arrive (sleep, lock, increment, test, unlock); the last reindeer needs
  6 and the last elf 8. Santa needs 4 statements from line 64 to the test of line 70
  and 7 to the test of line 92.
\<close>

definition eight_reindeer_arrive :: "thread list" where
  "eight_reindeer_arrive = concat (map (\<lambda>i. replicate 5 (Reindeer i)) [0..<8])"

definition nine_reindeer_arrive :: "thread list" where
  "nine_reindeer_arrive = eight_reindeer_arrive @ replicate 6 (Reindeer 8)"


definition ninth_reindeer_signals :: "thread list" where
  "ninth_reindeer_signals = eight_reindeer_arrive @ replicate 4 (Reindeer 8)"

definition two_elves_arrive :: "thread list" where
  "two_elves_arrive = replicate 5 (Elf 0) @ replicate 5 (Elf 1)"


definition third_elf_sets_flag :: "thread list" where
  "third_elf_sets_flag = two_elves_arrive @ replicate 4 (Elf 2)"

definition third_elf_signals :: "thread list" where
  "third_elf_signals = two_elves_arrive @ replicate 6 (Elf 2)"

definition three_elves_arrive :: "thread list" where
  "three_elves_arrive = two_elves_arrive @ replicate 8 (Elf 2)"

definition six_elves_arrive :: "thread list" where
  "six_elves_arrive =
     three_elves_arrive @ replicate 5 (Elf 3) @ replicate 5 (Elf 4) @ replicate 8 (Elf 5)"

definition reindeer_at_inc :: "thread list" where
  "reindeer_at_inc = [Reindeer 0, Reindeer 0]"

definition elf_at_inc :: "thread list" where
  "elf_at_inc = [Elf 0, Elf 0]"



definition santa_in_reindeer_branch :: "thread list" where
  "santa_in_reindeer_branch = nine_reindeer_arrive @ replicate 5 Santa"




definition santa_clears_flag :: "thread list" where
  "santa_clears_flag = three_elves_arrive @ replicate 11 Santa"

definition santa_about_to_deliver :: "thread list" where
  "santa_about_to_deliver = nine_reindeer_arrive @ replicate 16 Santa"

definition santa_about_to_consult :: "thread list" where
  "santa_about_to_consult = three_elves_arrive @ replicate 13 Santa"

definition santa_delivered :: "thread list" where
  "santa_delivered = nine_reindeer_arrive @ replicate 17 Santa"

definition santa_consulted :: "thread list" where
  "santa_consulted = three_elves_arrive @ replicate 14 Santa"



definition stale_wakeup :: "thread list" where
  "stale_wakeup = six_elves_arrive @ replicate 16 Santa @ replicate 9 Santa"



section \<open>Basic facts\<close>

lemma run_append: "run (xs @ ys) s = run ys (run xs s)"
  by (induction xs arbitrary: s) auto

lemma trace_append: "trace (xs @ ys) s = trace xs s @ trace ys (run xs s)"
  by (induction xs arbitrary: s) auto

lemma count_ev_snoc:
  "count_ev P (tr @ [(t, s)]) = count_ev P tr + (if P t s then 1 else 0)"
  by (simp add: count_ev_def)

lemma run_snoc: "run (ts @ [t]) s = step t (run ts s)"
  by (simp add: run_append)

lemma trace_snoc: "trace (ts @ [t]) s = trace ts s @ [(t, run ts s)]"
  by (simp add: trace_append)

lemma santa_pass_snoc: "santa_pass (tr @ [e]) = pass_upd (santa_pass tr) e"
  by (simp add: santa_pass_def)

lemma saw_other_snoc: "saw_other v (rs @ [r]) \<longleftrightarrow> rs = [] \<and> r \<noteq> v"
  by (cases "(v, rs)" rule: saw_other.cases) auto

lemma quiet_snoc: "quiet (p @ [a]) \<longleftrightarrow> quiet p \<and> shared_unchanged a (step Santa a)"
  by (simp add: quiet_def)


lemma owner_cases:
  obtains (Free) "m = None" | (BySanta) "m = Some Santa"
  | (ByReindeer) i where "m = Some (Reindeer i)" | (ByElf) j where "m = Some (Elf j)"
  by (metis option.exhaust thread.exhaust)

lemma count_pcs_Suc: "count_pcs P f (Suc n) = count_pcs P f n + (if P (f n) then 1 else 0)"
  by (simp add: count_pcs_def)

lemma count_pcs_le: "count_pcs P f n \<le> n"
  unfolding count_pcs_def using length_filter_le [of "\<lambda>i. P (f i)" "[0..<n]"] by simp

lemma count_pcs_upd_out: "n \<le> i \<Longrightarrow> count_pcs P (f(i := v)) n = count_pcs P f n"
  unfolding count_pcs_def by (rule arg_cong [where f = length], rule filter_cong) auto

lemma count_pcs_upd:
  "i < n \<Longrightarrow>
   int (count_pcs P (f(i := v)) n) =
   int (count_pcs P f n) + (if P v then 1 else 0) - (if P (f i) then 1 else 0)"
proof (induction n)
  case 0
  then show ?case by simp
next
  case (Suc n)
  have unfold_new:
    "count_pcs P (f(i := v)) (Suc n) =
     count_pcs P (f(i := v)) n + (if P ((f(i := v)) n) then 1 else 0)"
    by (rule count_pcs_Suc)
  have unfold_old: "count_pcs P f (Suc n) = count_pcs P f n + (if P (f n) then 1 else 0)"
    by (rule count_pcs_Suc)
  show ?case
  proof (cases "i = n")
    case True
    have same: "count_pcs P (f(i := v)) n = count_pcs P f n"
      by (rule count_pcs_upd_out) (simp add: True)
    have at_i: "(f(i := v)) n = v" "f n = f i"
      by (simp_all add: True)
    show ?thesis
      unfolding unfold_new unfold_old same at_i by simp
  next
    case False
    with Suc.prems have "i < n" by simp
    then have IH:
      "int (count_pcs P (f(i := v)) n) =
       int (count_pcs P f n) + (if P v then 1 else 0) - (if P (f i) then 1 else 0)"
      by (rule Suc.IH)
    have at_n: "(f(i := v)) n = f n"
      using False by simp
    show ?thesis
      unfolding unfold_new unfold_old at_n using IH by simp
  qed
qed

lemma count_pcs_less: "i < n \<Longrightarrow> \<not> P (f i) \<Longrightarrow> count_pcs P f n < n"
proof (induction n)
  case 0
  then show ?case by simp
next
  case (Suc n)
  show ?case
  proof (cases "i = n")
    case True
    with Suc.prems count_pcs_le [of P f n] show ?thesis by (simp add: count_pcs_Suc)
  next
    case False
    with Suc.prems have "i < n" by simp
    with Suc show ?thesis by (simp add: count_pcs_Suc)
  qed
qed

section \<open>The invariants hold in every reachable state\<close>

subsection \<open>Mutual exclusion\<close>

lemma mutexR_inv_init: "mutexR_inv init"
  by (simp add: mutexR_inv_def init_def)

lemma mutexR_inv_santa: "mutexR_inv s \<Longrightarrow> mutexR_inv (santaThread_step s)"
  unfolding mutexR_inv_def santaThread_step_def
  by (cases "reindeerMutex s" rule: owner_cases; cases "spc s"; simp)

lemma mutexR_inv_reindeer:
  "i < NUM_REINDEER \<Longrightarrow> mutexR_inv s \<Longrightarrow> mutexR_inv (reindeerThread_step i s)"
  unfolding mutexR_inv_def reindeerThread_step_def
  by (cases "reindeerMutex s" rule: owner_cases; cases "rpc s i"; auto)
     (metis reindeer_holds.simps(4))+

lemma mutexR_inv_elf: "mutexR_inv s \<Longrightarrow> mutexR_inv (elfThread_step j s)"
  unfolding mutexR_inv_def elfThread_step_def
  by (cases "epc s j"; simp)

lemma mutexR_inv_step: "mutexR_inv s \<Longrightarrow> mutexR_inv (step t s)"
  by (cases t) (simp_all add: mutexR_inv_santa mutexR_inv_reindeer mutexR_inv_elf)

lemma mutexE_inv_init: "mutexE_inv init"
  by (simp add: mutexE_inv_def init_def)

lemma mutexE_inv_santa: "mutexE_inv s \<Longrightarrow> mutexE_inv (santaThread_step s)"
  unfolding mutexE_inv_def santaThread_step_def
  by (cases "elfMutex s" rule: owner_cases; cases "spc s"; simp)

lemma mutexE_inv_reindeer: "mutexE_inv s \<Longrightarrow> mutexE_inv (reindeerThread_step i s)"
  unfolding mutexE_inv_def reindeerThread_step_def
  by (cases "rpc s i"; simp)

lemma mutexE_inv_elf: "j < NUM_ELVES \<Longrightarrow> mutexE_inv s \<Longrightarrow> mutexE_inv (elfThread_step j s)"
  unfolding mutexE_inv_def elfThread_step_def
  by (cases "elfMutex s" rule: owner_cases; cases "epc s j"; auto)
     (metis elf_holds.simps(6))+

lemma mutexE_inv_step: "mutexE_inv s \<Longrightarrow> mutexE_inv (step t s)"
  by (cases t) (simp_all add: mutexE_inv_santa mutexE_inv_reindeer mutexE_inv_elf)

lemma mutexS_inv_init: "mutexS_inv init"
  by (simp add: mutexS_inv_def init_def)

lemma mutexS_inv_step: "mutexS_inv s \<Longrightarrow> mutexS_inv (step t s)"
proof (cases t)
  case Santa
  assume "mutexS_inv s"
  then show ?thesis
    unfolding Santa mutexS_inv_def by (cases "spc s"; simp add: santaThread_step_def)
next
  case (Reindeer i)
  assume "mutexS_inv s"
  then show ?thesis
    unfolding Reindeer mutexS_inv_def by (cases "rpc s i"; simp add: reindeerThread_step_def)
next
  case (Elf j)
  assume "mutexS_inv s"
  then show ?thesis
    unfolding Elf mutexS_inv_def by (cases "epc s j"; simp add: elfThread_step_def)
qed

subsection \<open>Values under the locks\<close>

lemma valR_inv_init: "valR_inv init"
  by (simp add: valR_inv_def init_def)

lemma valR_inv_santa: "mutexR_inv s \<Longrightarrow> valR_inv s \<Longrightarrow> valR_inv (santaThread_step s)"
  unfolding valR_inv_def santaThread_step_def mutexR_inv_def
  by (cases "reindeerMutex s" rule: owner_cases; cases "spc s"; auto)

lemma valR_inv_reindeer:
  "i < NUM_REINDEER \<Longrightarrow> mutexR_inv s \<Longrightarrow> valR_inv s \<Longrightarrow> valR_inv (reindeerThread_step i s)"
  unfolding valR_inv_def reindeerThread_step_def mutexR_inv_def
  by (cases "reindeerMutex s" rule: owner_cases; cases "rpc s i"; auto)

lemma valR_inv_elf: "valR_inv s \<Longrightarrow> valR_inv (elfThread_step j s)"
  unfolding valR_inv_def elfThread_step_def
  by (cases "epc s j"; simp)

lemma valR_inv_step: "mutexR_inv s \<Longrightarrow> valR_inv s \<Longrightarrow> valR_inv (step t s)"
  by (cases t) (simp_all add: valR_inv_santa valR_inv_reindeer valR_inv_elf)

lemma valE_inv_init: "valE_inv init"
  by (simp add: valE_inv_def init_def)

lemma valE_inv_santa: "mutexE_inv s \<Longrightarrow> valE_inv s \<Longrightarrow> valE_inv (santaThread_step s)"
  unfolding valE_inv_def santaThread_step_def mutexE_inv_def
  by (cases "elfMutex s" rule: owner_cases; cases "spc s"; auto)

lemma valE_inv_reindeer: "valE_inv s \<Longrightarrow> valE_inv (reindeerThread_step i s)"
  unfolding valE_inv_def reindeerThread_step_def
  by (cases "rpc s i"; simp)

lemma santa_valE_ready: "santa_valE p c \<Longrightarrow> santa_valE p 3"
  by (cases p) simp_all

lemma valE_inv_elf:
  "j < NUM_ELVES \<Longrightarrow> mutexE_inv s \<Longrightarrow> valE_inv s \<Longrightarrow> valE_inv (elfThread_step j s)"
  unfolding valE_inv_def elfThread_step_def mutexE_inv_def
  by (cases "elfMutex s" rule: owner_cases; cases "epc s j"; auto simp: santa_valE_ready)

lemma valE_inv_step: "mutexE_inv s \<Longrightarrow> valE_inv s \<Longrightarrow> valE_inv (step t s)"
  by (cases t) (simp_all add: valE_inv_santa valE_inv_reindeer valE_inv_elf)

subsection \<open>Counting the reindeer\<close>

lemma countR_inv_init: "countR_inv init"
  by (simp add: countR_inv_def init_def count_pcs_def)

lemma countR_inv_santa:
  "mutexR_inv s \<Longrightarrow> valR_inv s \<Longrightarrow> countR_inv s \<Longrightarrow> countR_inv (santaThread_step s)"
  unfolding countR_inv_def santaThread_step_def mutexR_inv_def valR_inv_def
  by (cases "reindeerMutex s" rule: owner_cases; cases "spc s"; auto)

lemma countR_inv_reindeer:
  "i < NUM_REINDEER \<Longrightarrow> countR_inv s \<Longrightarrow> countR_inv (reindeerThread_step i s)"
  unfolding countR_inv_def reindeerThread_step_def
  by (cases "rpc s i"; simp add: count_pcs_upd)

lemma countR_inv_elf: "countR_inv s \<Longrightarrow> countR_inv (elfThread_step j s)"
  unfolding countR_inv_def elfThread_step_def
  by (cases "epc s j"; simp)

lemma countR_inv_step: "mutexR_inv s \<Longrightarrow> valR_inv s \<Longrightarrow> countR_inv s \<Longrightarrow> countR_inv (step t s)"
  by (cases t) (simp_all add: countR_inv_santa countR_inv_reindeer countR_inv_elf)

subsection \<open>All together\<close>

lemma inv_init: "protocol_inv init"
  by (simp add: protocol_inv_def mutexR_inv_init mutexE_inv_init mutexS_inv_init valR_inv_init
      valE_inv_init countR_inv_init)

lemma inv_step: "protocol_inv s \<Longrightarrow> protocol_inv (step t s)"
  by (simp add: protocol_inv_def mutexR_inv_step mutexE_inv_step mutexS_inv_step valR_inv_step
      valE_inv_step countR_inv_step)

lemma inv_run: "protocol_inv s \<Longrightarrow> protocol_inv (run sched s)"
  by (induction sched arbitrary: s) (simp_all add: inv_step)

lemma inv_reachable: "protocol_inv (run sched init)"
  by (rule inv_run [OF inv_init])

subsection \<open>Consequences\<close>

lemma inv_reindeerCount_bounds:
  assumes "protocol_inv s"
  shows "0 \<le> reindeerCount s \<and> reindeerCount s \<le> int NUM_REINDEER"
proof -
  from assms have m: "mutexR_inv s" and v: "valR_inv s" and c: "countR_inv s"
    by (simp_all add: protocol_inv_def)
  have le: "count_pcs arrived (rpc s) NUM_REINDEER \<le> NUM_REINDEER"
    by (rule count_pcs_le)
  show ?thesis
  proof (cases "releasedR (spc s) = 0")
    case True
    with c le v show ?thesis by (simp add: countR_inv_def valR_inv_def)
  next
    case False
    then have "santa_holdsR (spc s)" by (cases "spc s") simp_all
    with m have "reindeerMutex s = Some Santa"
      unfolding mutexR_inv_def by (cases "reindeerMutex s" rule: owner_cases) simp_all
    with v False show ?thesis
      unfolding valR_inv_def by (cases "spc s") simp_all
  qed
qed


lemma inv_waitingElves_bounds:
  assumes "protocol_inv s"
  shows "0 \<le> waitingElves s \<and> waitingElves s \<le> int ELF_GROUP_SIZE"
proof -
  from assms have v: "valE_inv s" by (simp add: protocol_inv_def)
  show ?thesis
  proof (cases "elfMutex s" rule: owner_cases)
    case (ByElf j)
    with v show ?thesis unfolding valE_inv_def by (cases "epc s j") simp_all
  qed (use v in \<open>simp_all add: valE_inv_def\<close>)
qed

lemma inv_santa_PostR:
  "protocol_inv s \<Longrightarrow> spc s = S_PostR i \<Longrightarrow> i \<le> NUM_REINDEER \<and> reindeerCount s = int NUM_REINDEER"
  unfolding protocol_inv_def mutexR_inv_def valR_inv_def
  by (cases "reindeerMutex s" rule: owner_cases) simp_all

lemma inv_santa_ResetR: "protocol_inv s \<Longrightarrow> spc s = S_ResetR \<Longrightarrow> reindeerCount s = int NUM_REINDEER"
  unfolding protocol_inv_def mutexR_inv_def valR_inv_def
  by (cases "reindeerMutex s" rule: owner_cases) simp_all

lemma inv_santa_PostE:
  "protocol_inv s \<Longrightarrow> spc s = S_PostE i \<Longrightarrow> i \<le> ELF_GROUP_SIZE \<and> elfCount s = int ELF_GROUP_SIZE"
  by (simp add: protocol_inv_def valE_inv_def)


lemma inv_reindeer_Inc:
  assumes "protocol_inv s" and "i < NUM_REINDEER" and "rpc s i = R_Inc"
  shows "reindeerCount s < int NUM_REINDEER"
proof -
  from assms(1) have m: "mutexR_inv s" and c: "countR_inv s" by (simp_all add: protocol_inv_def)
  from m assms(2,3) have "\<not> santa_holdsR (spc s)"
    unfolding mutexR_inv_def by (cases "reindeerMutex s" rule: owner_cases) auto
  then have r: "releasedR (spc s) = 0" by (cases "spc s") simp_all
  have "count_pcs arrived (rpc s) NUM_REINDEER < NUM_REINDEER"
    by (rule count_pcs_less [OF assms(2)]) (simp add: assms(3))
  with c r show ?thesis by (simp add: countR_inv_def)
qed

lemma inv_reindeer_PostSanta:
  assumes "protocol_inv s" and "i < NUM_REINDEER" and "rpc s i = R_PostSanta"
  shows "reindeerCount s = int NUM_REINDEER"
proof -
  from assms(1) have m: "mutexR_inv s" and v: "valR_inv s" by (simp_all add: protocol_inv_def)
  from m assms(2,3) have "reindeerMutex s = Some (Reindeer i)"
    unfolding mutexR_inv_def by (cases "reindeerMutex s" rule: owner_cases) auto
  with v assms(3) show ?thesis by (simp add: valR_inv_def)
qed

lemma inv_reindeer_owner:
  "protocol_inv s \<Longrightarrow> i < NUM_REINDEER \<Longrightarrow> reindeer_holds (rpc s i) \<Longrightarrow>
   reindeerMutex s = Some (Reindeer i)"
  unfolding protocol_inv_def mutexR_inv_def by (cases "reindeerMutex s" rule: owner_cases) auto

lemma inv_reindeer_outside:
  "protocol_inv s \<Longrightarrow> i < NUM_REINDEER \<Longrightarrow> \<not> reindeer_holds (rpc s i) \<Longrightarrow>
   reindeerMutex s \<noteq> Some (Reindeer i)"
  unfolding protocol_inv_def mutexR_inv_def by (cases "reindeerMutex s" rule: owner_cases) auto

lemma inv_elf_owner:
  "protocol_inv s \<Longrightarrow> j < NUM_ELVES \<Longrightarrow> elf_holds (epc s j) \<Longrightarrow> elfMutex s = Some (Elf j)"
  unfolding protocol_inv_def mutexE_inv_def by (cases "elfMutex s" rule: owner_cases) auto

lemma inv_elf_outside:
  "protocol_inv s \<Longrightarrow> j < NUM_ELVES \<Longrightarrow> \<not> elf_holds (epc s j) \<Longrightarrow> elfMutex s \<noteq> Some (Elf j)"
  unfolding protocol_inv_def mutexE_inv_def by (cases "elfMutex s" rule: owner_cases) auto

lemma inv_elf_val:
  "protocol_inv s \<Longrightarrow> elfMutex s = Some (Elf j) \<Longrightarrow> elf_val (epc s j) (waitingElves s) (elfCount s)"
  by (simp add: protocol_inv_def valE_inv_def)

lemma reindeerCount_writer:
  assumes "mutexR_inv s" and "reindeerCount (step t s) \<noteq> reindeerCount s"
  shows "reindeerMutex s = Some t"
proof (cases t)
  case Santa
  with assms(2) have "santa_holdsR (spc s)"
    by (cases "spc s") (simp_all add: santaThread_step_def split: if_splits)
  with assms(1) show ?thesis
    unfolding Santa mutexR_inv_def by (cases "reindeerMutex s" rule: owner_cases) simp_all
next
  case (Reindeer i)
  with assms(2) have "i < NUM_REINDEER \<and> reindeer_holds (rpc s i)"
    by (cases "rpc s i") (simp_all add: reindeerThread_step_def split: if_splits)
  with assms(1) show ?thesis
    unfolding Reindeer mutexR_inv_def by (cases "reindeerMutex s" rule: owner_cases) auto
next
  case (Elf j)
  with assms(2) show ?thesis
    by (cases "epc s j") (simp_all add: elfThread_step_def split: if_splits)
qed

lemma waitingElves_writer:
  assumes "mutexE_inv s" and "waitingElves (step t s) \<noteq> waitingElves s"
  shows "elfMutex s = Some t"
proof (cases t)
  case Santa
  with assms(2) show ?thesis
    by (cases "spc s") (simp_all add: santaThread_step_def split: if_splits)
next
  case (Reindeer i)
  with assms(2) show ?thesis
    by (cases "rpc s i") (simp_all add: reindeerThread_step_def split: if_splits)
next
  case (Elf j)
  with assms(2) have "j < NUM_ELVES \<and> elf_holds (epc s j)"
    by (cases "epc s j") (simp_all add: elfThread_step_def split: if_splits)
  with assms(1) show ?thesis
    unfolding Elf mutexE_inv_def by (cases "elfMutex s" rule: owner_cases) auto
qed

lemma elfCount_writer:
  assumes "protocol_inv s" and "elfCount (step t s) \<noteq> elfCount s"
  shows "elfMutex s = Some t \<and>
     ((\<exists>j. t = Elf j \<and> epc s j = E_SetCount \<and> waitingElves s = int ELF_GROUP_SIZE \<and>
           elfCount s = 0 \<and> elfCount (step t s) = int ELF_GROUP_SIZE) \<or>
      (t = Santa \<and> spc s = S_ResetE \<and> elfCount s = int ELF_GROUP_SIZE \<and>
           elfCount (step t s) = 0))"
proof -
  from assms(1) have m: "mutexE_inv s" and v: "valE_inv s" by (simp_all add: protocol_inv_def)
  show ?thesis
  proof (cases t)
    case Santa
    with assms(2) have pc: "spc s = S_ResetE"
      by (cases "spc s") (simp_all add: santaThread_step_def split: if_splits)
    with m have "elfMutex s = Some Santa"
      unfolding mutexE_inv_def by (cases "elfMutex s" rule: owner_cases) simp_all
    with pc v show ?thesis
      unfolding Santa by (simp add: valE_inv_def santaThread_step_def)
  next
    case (Reindeer i)
    with assms(2) show ?thesis
      by (cases "rpc s i") (simp_all add: reindeerThread_step_def split: if_splits)
  next
    case (Elf j)
    with assms(2) have pc: "j < NUM_ELVES" "epc s j = E_SetCount"
      by (cases "epc s j"; simp add: elfThread_step_def split: if_splits)+
    with m have own: "elfMutex s = Some (Elf j)"
      unfolding mutexE_inv_def by (cases "elfMutex s" rule: owner_cases) auto
    with pc v assms(2) show ?thesis
      unfolding Elf by (auto simp: valE_inv_def elfThread_step_def)
  qed
qed




subsection \<open>The pass of Santa\<close>

lemma pass_rel_step:
  assumes "pass_rel (spc s) (reads_reindeerCount p) (reads_elfCount p)"
  shows "pass_rel (spc (step t s)) (reads_reindeerCount (pass_upd p (t, s)))
           (reads_elfCount (pass_upd p (t, s)))"
proof (cases t)
  case Santa
  from assms show ?thesis
    unfolding Santa reads_reindeerCount_def reads_elfCount_def
    by (cases "spc s") (auto simp: santaThread_step_def)
next
  case (Reindeer i)
  from assms show ?thesis
    unfolding Reindeer by (cases "rpc s i") (auto simp: reindeerThread_step_def)
next
  case (Elf j)
  from assms show ?thesis
    unfolding Elf by (cases "epc s j") (auto simp: elfThread_step_def)
qed

lemma pass_rel_reachable:
  "pass_rel (spc (run sched init)) (reads_reindeerCount (santa_pass (trace sched init)))
     (reads_elfCount (santa_pass (trace sched init)))"
proof (induction sched rule: rev_induct)
  case Nil
  show ?case by (simp add: init_def)
next
  case (snoc t sched)
  then show ?case
    unfolding run_snoc trace_snoc santa_pass_snoc by (rule pass_rel_step)
qed

lemma noop_rel_step:
  assumes "pass_rel (spc s) (reads_reindeerCount p) (reads_elfCount p)" and "noop_rel s p"
  shows "noop_rel (step t s) (pass_upd p (t, s))"
proof (cases t)
  case Santa
  from assms show ?thesis
    unfolding Santa noop_rel_def neither_ready_def reads_reindeerCount_def reads_elfCount_def
    by (cases "spc s")
      (auto simp: santaThread_step_def quiet_snoc shared_unchanged_def saw_other_snoc quiet_def)
next
  case (Reindeer i)
  from assms(2) show ?thesis
    unfolding Reindeer noop_rel_def by (cases "rpc s i") (auto simp: reindeerThread_step_def)
next
  case (Elf j)
  from assms(2) show ?thesis
    unfolding Elf noop_rel_def by (cases "epc s j") (auto simp: elfThread_step_def)
qed

lemma noop_rel_reachable: "noop_rel (run sched init) (santa_pass (trace sched init))"
proof (induction sched rule: rev_induct)
  case Nil
  show ?case by (simp add: init_def noop_rel_def santa_pass_def quiet_def neither_ready_def
        reads_reindeerCount_def)
next
  case (snoc t sched)
  then show ?case
    unfolding run_snoc trace_snoc santa_pass_snoc
    by (rule noop_rel_step [OF pass_rel_reachable])
qed

subsection \<open>Accounting along a trace\<close>



lemma aheadR_step:
  assumes "protocol_inv s"
  shows "aheadR (spc s) + (if posts_reindeerSem t s then 1 else 0) =
         NUM_REINDEER * (if service_reindeer t s then 1 else 0) + aheadR (spc (step t s))"
proof (cases t)
  case Santa
  show ?thesis
    unfolding Santa posts_reindeerSem_def service_reindeer_def
    using inv_santa_PostR [OF assms]
    by (cases "spc s") (auto simp: santaThread_step_def)
next
  case (Reindeer i)
  show ?thesis
    unfolding Reindeer posts_reindeerSem_def service_reindeer_def
    by (cases "rpc s i") (auto simp: reindeerThread_step_def)
next
  case (Elf j)
  show ?thesis
    unfolding Elf posts_reindeerSem_def service_reindeer_def
    by (cases "epc s j") (auto simp: elfThread_step_def)
qed

lemma aheadE_step:
  assumes "protocol_inv s"
  shows "aheadE (spc s) + (if posts_elfSem t s then 1 else 0) =
         ELF_GROUP_SIZE * (if service_elves t s then 1 else 0) + aheadE (spc (step t s))"
proof (cases t)
  case Santa
  show ?thesis
    unfolding Santa posts_elfSem_def service_elves_def
    using inv_santa_PostE [OF assms]
    by (cases "spc s") (auto simp: santaThread_step_def)
next
  case (Reindeer i)
  show ?thesis
    unfolding Reindeer posts_elfSem_def service_elves_def
    by (cases "rpc s i") (auto simp: reindeerThread_step_def)
next
  case (Elf j)
  show ?thesis
    unfolding Elf posts_elfSem_def service_elves_def
    by (cases "epc s j") (auto simp: elfThread_step_def)
qed

lemma deliveries_step:
  "int (if service_reindeer t s then 1 else 0) + deliveries s +
     (if spc s = S_IncDeliveries then 1 else 0) =
   deliveries (step t s) + (if spc (step t s) = S_IncDeliveries then 1 else 0)"
proof (cases t)
  case Santa
  show ?thesis
    unfolding Santa service_reindeer_def by (cases "spc s") (auto simp: santaThread_step_def)
next
  case (Reindeer i)
  show ?thesis
    unfolding Reindeer service_reindeer_def by (cases "rpc s i") (auto simp: reindeerThread_step_def)
next
  case (Elf j)
  show ?thesis
    unfolding Elf service_reindeer_def by (cases "epc s j") (auto simp: elfThread_step_def)
qed

lemma consultations_step:
  "int (if service_elves t s then 1 else 0) + elfConsultations s +
     (if spc s = S_IncConsult then 1 else 0) =
   elfConsultations (step t s) + (if spc (step t s) = S_IncConsult then 1 else 0)"
proof (cases t)
  case Santa
  show ?thesis
    unfolding Santa service_elves_def by (cases "spc s") (auto simp: santaThread_step_def)
next
  case (Reindeer i)
  show ?thesis
    unfolding Reindeer service_elves_def by (cases "rpc s i") (auto simp: reindeerThread_step_def)
next
  case (Elf j)
  show ?thesis
    unfolding Elf service_elves_def by (cases "epc s j") (auto simp: elfThread_step_def)
qed

lemma service_accounting:
  "int (count_ev service_reindeer (trace sched init)) =
     deliveries (run sched init) + (if spc (run sched init) = S_IncDeliveries then 1 else 0) \<and>
   int (count_ev service_elves (trace sched init)) =
     elfConsultations (run sched init) + (if spc (run sched init) = S_IncConsult then 1 else 0)"
proof (induction sched rule: rev_induct)
  case Nil
  show ?case by (simp add: count_ev_def init_def)
next
  case (snoc t sched)
  from snoc deliveries_step [of t "run sched init"] consultations_step [of t "run sched init"]
  show ?case
    unfolding run_snoc trace_snoc count_ev_snoc by (simp split: if_splits)
qed

lemma counters_step:
  "deliveries s \<le> deliveries (step t s) \<and> elfConsultations s \<le> elfConsultations (step t s) \<and>
   (deliveries (step t s) \<noteq> deliveries s \<or> elfConsultations (step t s) \<noteq> elfConsultations s \<longrightarrow>
      t = Santa \<and>
      (deliveries (step t s) = deliveries s + 1 \<and> elfConsultations (step t s) = elfConsultations s \<or>
       deliveries (step t s) = deliveries s \<and> elfConsultations (step t s) = elfConsultations s + 1))"
proof (cases t)
  case Santa
  show ?thesis
    unfolding Santa by (cases "spc s") (auto simp: santaThread_step_def)
next
  case (Reindeer i)
  show ?thesis
    unfolding Reindeer by (cases "rpc s i") (auto simp: reindeerThread_step_def)
next
  case (Elf j)
  show ?thesis
    unfolding Elf by (cases "epc s j") (auto simp: elfThread_step_def)
qed

lemma counters_run:
  "deliveries s \<le> deliveries (run rest s) \<and> elfConsultations s \<le> elfConsultations (run rest s)"
proof (induction rest arbitrary: s)
  case Nil
  show ?case by simp
next
  case (Cons t rest)
  from Cons [of "step t s"] counters_step [of s t] show ?case by simp
qed

lemma service_then_increment:
  "(spc s = S_SleepR \<longrightarrow> spc (step Santa s) = S_IncDeliveries) \<and>
   (spc s = S_SleepE \<longrightarrow> spc (step Santa s) = S_IncConsult) \<and>
   (spc s = S_IncDeliveries \<longrightarrow>
      deliveries (step Santa s) = deliveries s + 1 \<and>
      elfConsultations (step Santa s) = elfConsultations s \<and>
      spc (step Santa s) = S_PostMutex) \<and>
   (spc s = S_IncConsult \<longrightarrow>
      elfConsultations (step Santa s) = elfConsultations s + 1 \<and>
      deliveries (step Santa s) = deliveries s \<and>
      spc (step Santa s) = S_PostMutex)"
  by (simp add: santaThread_step_def)

lemma in_service_step:
  "(if in_service s then 1 else 0) + (if service_begins t s then 1 else 0) =
   (if service_ends t s then 1 else 0) + (if in_service (step t s) then (1::nat) else 0)"
proof (cases t)
  case Santa
  show ?thesis
    unfolding Santa service_begins_def service_ends_def in_service_def
    by (cases "spc s") (auto simp: santaThread_step_def)
next
  case (Reindeer i)
  show ?thesis
    unfolding Reindeer service_begins_def service_ends_def in_service_def
    by (cases "rpc s i") (auto simp: reindeerThread_step_def)
next
  case (Elf j)
  show ?thesis
    unfolding Elf service_begins_def service_ends_def in_service_def
    by (cases "epc s j") (auto simp: elfThread_step_def)
qed

lemma service_balance:
  "count_ev service_begins (trace sched init) =
   count_ev service_ends (trace sched init) + (if in_service (run sched init) then 1 else 0)"
proof (induction sched rule: rev_induct)
  case Nil
  show ?case by (simp add: count_ev_def init_def in_service_def)
next
  case (snoc t sched)
  from snoc in_service_step [of "run sched init" t]
  show ?case
    unfolding run_snoc trace_snoc count_ev_snoc by (simp split: if_splits)
qed

lemma in_service_in_cs: "in_service s \<Longrightarrow> santa_in_cs (spc s)"
  unfolding in_service_def by (cases "spc s") simp_all

lemma santa_loops_after_service:
  assumes "spc s = S_SleepR \<or> spc s = S_SleepE"
  shows "spc (run [Santa, Santa, Santa] s) = S_WaitSanta"
proof -
  have sleep: "spc (step Santa a) = S_IncDeliveries" if "spc a = S_SleepR" for a
    using that by (simp add: santaThread_step_def)
  have sleep': "spc (step Santa a) = S_IncConsult" if "spc a = S_SleepE" for a
    using that by (simp add: santaThread_step_def)
  have inc: "spc (step Santa a) = S_PostMutex"
    if "spc a = S_IncDeliveries \<or> spc a = S_IncConsult" for a
    using that by (auto simp: santaThread_step_def)
  have post: "spc (step Santa a) = S_WaitSanta" if "spc a = S_PostMutex" for a
    using that by (simp add: santaThread_step_def)
  from assms have "spc (step Santa s) = S_IncDeliveries \<or> spc (step Santa s) = S_IncConsult"
    using sleep [of s] sleep' [of s] by blast
  then have "spc (step Santa (step Santa s)) = S_PostMutex"
    by (rule inc)
  then have "spc (step Santa (step Santa (step Santa s))) = S_WaitSanta"
    by (rule post)
  then show ?thesis by simp
qed

lemma signal_pendingR_other:
  "m \<noteq> Some (Reindeer i) \<Longrightarrow> signal_pendingR m (f(i := v)) = signal_pendingR m f"
  by (cases m rule: owner_cases) auto

lemma signal_pendingE_other:
  "m \<noteq> Some (Elf j) \<Longrightarrow> signal_pendingE m (f(j := v)) = signal_pendingE m f"
  by (cases m rule: owner_cases) auto

lemma openR_step:
  assumes "protocol_inv s"
  shows "int (if arrives_reindeer t s then 1 else 0) + openR s =
         int NUM_REINDEER * int (if signals_reindeer t s then 1 else 0) + openR (step t s)"
proof (cases t)
  case Santa
  have "mutexR_inv s" using assms by (simp add: protocol_inv_def)
  then show ?thesis
    unfolding Santa arrives_reindeer_def signals_reindeer_def openR_def mutexR_inv_def
    using inv_santa_ResetR [OF assms]
    by (cases "reindeerMutex s" rule: owner_cases; cases "spc s"; simp add: santaThread_step_def)
next
  case (Reindeer i)
  show ?thesis
  proof (cases "i < NUM_REINDEER")
    case False
    then show ?thesis
      unfolding Reindeer arrives_reindeer_def signals_reindeer_def by simp
  next
    case True
    show ?thesis
    proof (cases "reindeer_holds (rpc s i)")
      case holds: True
      from inv_reindeer_owner [OF assms True holds]
      have own: "reindeerMutex s = Some (Reindeer i)" .
      with True inv_reindeer_Inc [OF assms True] inv_reindeer_PostSanta [OF assms True]
      show ?thesis
        unfolding Reindeer arrives_reindeer_def signals_reindeer_def openR_def
        by (cases "rpc s i") (auto simp: reindeerThread_step_def)
    next
      case outside: False
      from inv_reindeer_outside [OF assms True outside]
      have other: "reindeerMutex s \<noteq> Some (Reindeer i)" .
      with True outside show ?thesis
        unfolding Reindeer arrives_reindeer_def signals_reindeer_def openR_def
        by (cases "rpc s i") (auto simp: reindeerThread_step_def signal_pendingR_other)
    qed
  qed
next
  case (Elf j)
  show ?thesis
    unfolding Elf arrives_reindeer_def signals_reindeer_def openR_def
    by (cases "epc s j") (auto simp: elfThread_step_def)
qed

lemma openE_step:
  assumes "protocol_inv s"
  shows "int (if arrives_elf t s then 1 else 0) + openE s =
         int ELF_GROUP_SIZE * int (if signals_elf t s then 1 else 0) + openE (step t s)"
proof (cases t)
  case Santa
  have "mutexE_inv s" using assms by (simp add: protocol_inv_def)
  then show ?thesis
    unfolding Santa arrives_elf_def signals_elf_def openE_def mutexE_inv_def
    by (cases "elfMutex s" rule: owner_cases; cases "spc s"; simp add: santaThread_step_def)
next
  case (Reindeer i)
  show ?thesis
    unfolding Reindeer arrives_elf_def signals_elf_def openE_def
    by (cases "rpc s i") (auto simp: reindeerThread_step_def)
next
  case (Elf j)
  show ?thesis
  proof (cases "j < NUM_ELVES")
    case False
    then show ?thesis
      unfolding Elf arrives_elf_def signals_elf_def by simp
  next
    case True
    show ?thesis
    proof (cases "elf_holds (epc s j)")
      case holds: True
      from inv_elf_owner [OF assms True holds]
      have own: "elfMutex s = Some (Elf j)" .
      with True inv_elf_val [OF assms own]
      show ?thesis
        unfolding Elf arrives_elf_def signals_elf_def openE_def
        by (cases "epc s j") (auto simp: elfThread_step_def)
    next
      case outside: False
      from inv_elf_outside [OF assms True outside]
      have other: "elfMutex s \<noteq> Some (Elf j)" .
      with True outside show ?thesis
        unfolding Elf arrives_elf_def signals_elf_def openE_def
        by (cases "epc s j") (auto simp: elfThread_step_def signal_pendingE_other)
    qed
  qed
qed

lemma arrival_accounting:
  "int (count_ev arrives_reindeer (trace sched init)) =
     int NUM_REINDEER * int (count_ev signals_reindeer (trace sched init)) + openR (run sched init) \<and>
   int (count_ev arrives_elf (trace sched init)) =
     int ELF_GROUP_SIZE * int (count_ev signals_elf (trace sched init)) + openE (run sched init)"
proof (induction sched rule: rev_induct)
  case Nil
  show ?case by (simp add: count_ev_def init_def openR_def openE_def)
next
  case (snoc t sched)
  have i: "protocol_inv (run sched init)" by (rule inv_reachable)
  from snoc openR_step [OF i, of t] openE_step [OF i, of t]
  show ?case
    unfolding run_snoc trace_snoc count_ev_snoc by (simp split: if_splits)
qed

lemma openR_bounds:
  assumes "protocol_inv s"
  shows "0 \<le> openR s \<and> openR s \<le> int NUM_REINDEER \<and>
         (openR s = int NUM_REINDEER \<longrightarrow> signal_pendingR (reindeerMutex s) (rpc s))"
  using inv_reindeerCount_bounds [OF assms] by (simp add: openR_def)

lemma openE_bounds:
  assumes "protocol_inv s"
  shows "0 \<le> openE s \<and> openE s \<le> int ELF_GROUP_SIZE"
proof (cases "elfMutex s" rule: owner_cases)
  case (ByElf j)
  with inv_elf_val [OF assms ByElf] show ?thesis
    unfolding openE_def by (cases "epc s j") simp_all
qed (use inv_waitingElves_bounds [OF assms] in \<open>simp_all add: openE_def\<close>)

lemma signal_holder:
  assumes "protocol_inv s"
  shows "(arrives_reindeer t s \<or> signals_reindeer t s \<longrightarrow> reindeerMutex s = Some t) \<and>
         (signals_reindeer t s \<longrightarrow> reindeerCount s = int NUM_REINDEER) \<and>
         (arrives_elf t s \<or> signals_elf t s \<longrightarrow> elfMutex s = Some t) \<and>
         (signals_elf t s \<longrightarrow> elfCount s = int ELF_GROUP_SIZE \<and> waitingElves s = 0)"
proof -
  from assms have m: "mutexR_inv s" "mutexE_inv s" by (simp_all add: protocol_inv_def)
  have ar: "arrives_reindeer t s \<longrightarrow> reindeerMutex s = Some t"
    using reindeerCount_writer [OF m(1), of t] by (auto simp: arrives_reindeer_def)
  have ae: "arrives_elf t s \<longrightarrow> elfMutex s = Some t"
    using waitingElves_writer [OF m(2), of t] by (auto simp: arrives_elf_def)
  show ?thesis
  proof (cases t)
    case Santa
    with ar ae show ?thesis by (simp add: signals_reindeer_def signals_elf_def)
  next
    case (Reindeer i)
    have "signals_reindeer t s \<longrightarrow> i < NUM_REINDEER \<and> rpc s i = R_PostSanta"
      unfolding Reindeer signals_reindeer_def
      by (cases "rpc s i") (auto simp: reindeerThread_step_def)
    with inv_reindeer_owner [OF assms, of i] inv_reindeer_PostSanta [OF assms, of i] ar ae
    show ?thesis unfolding Reindeer by (auto simp: signals_elf_def)
  next
    case (Elf j)
    have "signals_elf t s \<longrightarrow> j < NUM_ELVES \<and> epc s j = E_PostSanta"
      unfolding Elf signals_elf_def
      by (cases "epc s j") (auto simp: elfThread_step_def)
    with inv_elf_owner [OF assms, of j] inv_elf_val [OF assms, of j] ar ae
    show ?thesis unfolding Elf by (auto simp: signals_reindeer_def)
  qed
qed

subsection \<open>The arrival of one worker\<close>



section \<open>The claims\<close>




text \<open>
  Claim C2 (at most one service). In every run the services Santa has begun are the
  services it has ended, plus one exactly when a service is in progress: a new service
  never begins while one is in flight. \<^verbatim>\<open>santaMutex\<close> has the value 0 exactly while
  Santa is between line 66 and line 113, and 1 otherwise, so the whole
  decide-and-service sequence runs with the semaphore taken.
\<close>

theorem services_serialized:
  "let s = run sched init; tr = trace sched init in
     count_ev service_begins tr = count_ev service_ends tr + (if in_service s then 1 else 0) \<and>
     santaMutex s = (if santa_in_cs (spc s) then 0 else 1) \<and>
     (in_service s \<longrightarrow> santaMutex s = 0)"
proof -
  have "mutexS_inv (run sched init)"
    using inv_reachable [of sched] by (simp add: protocol_inv_def)
  then have m: "santaMutex (run sched init) = (if santa_in_cs (spc (run sched init)) then 0 else 1)"
    by (simp add: mutexS_inv_def)
  with in_service_in_cs [of "run sched init"] service_balance [of sched]
  show ?thesis unfolding Let_def by simp
qed

theorem services_serialized_witness:
  "in_service (run santa_in_reindeer_branch init) \<and>
   santaMutex (run santa_in_reindeer_branch init) = 0 \<and>
   count_ev service_begins (trace santa_in_reindeer_branch init) = 1 \<and>
   count_ev service_ends (trace santa_in_reindeer_branch init) = 0"
proof -
  have s: "in_service (run santa_in_reindeer_branch init)"
    by code_simp
  have e: "count_ev service_ends (trace santa_in_reindeer_branch init) = 0"
    by code_simp
  from services_serialized [of santa_in_reindeer_branch] s e show ?thesis
    unfolding Let_def by simp
qed



text \<open>
  Claim C4 (one signal per cohort). In every run the increments of \<^verbatim>\<open>reindeerCount\<close>
  are 9 for each post of \<^verbatim>\<open>santaSem\<close> by a reindeer, plus the arrivals of the cohort
  that has not been signalled yet, which are between 0 and 9, and 9 only while the
  reindeer that completed the cohort stands between its increment and its post. The
  increments of \<^verbatim>\<open>waitingElves\<close> are 3 for each post of \<^verbatim>\<open>santaSem\<close> by an elf, plus
  between 0 and 3 arrivals not yet signalled. So every ninth reindeer arrival and every
  third elf arrival posts once, and no other arrival posts. A worker increments and
  posts only while it holds the mutex of its gate; a reindeer posts with
  \<^verbatim>\<open>reindeerCount\<close> at 9, an elf with \<^verbatim>\<open>elfCount\<close> at 3 and \<^verbatim>\<open>waitingElves\<close> back
  at 0.
\<close>

theorem last_arrival_signals_once:
  "let s = run sched init; tr = trace sched init in
     int (count_ev arrives_reindeer tr) =
       int NUM_REINDEER * int (count_ev signals_reindeer tr) + openR s \<and>
     0 \<le> openR s \<and> openR s \<le> int NUM_REINDEER \<and>
     (openR s = int NUM_REINDEER \<longrightarrow> signal_pendingR (reindeerMutex s) (rpc s)) \<and>
     (arrives_reindeer t s \<or> signals_reindeer t s \<longrightarrow> reindeerMutex s = Some t) \<and>
     (signals_reindeer t s \<longrightarrow> reindeerCount s = int NUM_REINDEER) \<and>
     int (count_ev arrives_elf tr) =
       int ELF_GROUP_SIZE * int (count_ev signals_elf tr) + openE s \<and>
     0 \<le> openE s \<and> openE s \<le> int ELF_GROUP_SIZE \<and>
     (arrives_elf t s \<or> signals_elf t s \<longrightarrow> elfMutex s = Some t) \<and>
     (signals_elf t s \<longrightarrow> elfCount s = int ELF_GROUP_SIZE \<and> waitingElves s = 0)"
  unfolding Let_def
  using arrival_accounting [of sched] openR_bounds [OF inv_reachable, of sched]
    openE_bounds [OF inv_reachable, of sched] signal_holder [OF inv_reachable, of t sched]
  by blast

theorem last_arrival_signals_once_witness:
  "openR (run ninth_reindeer_signals init) = 9 \<and>
   signal_pendingR (reindeerMutex (run ninth_reindeer_signals init))
     (rpc (run ninth_reindeer_signals init)) \<and>
   signals_reindeer (Reindeer 8) (run ninth_reindeer_signals init) \<and>
   reindeerMutex (run ninth_reindeer_signals init) = Some (Reindeer 8) \<and>
   reindeerCount (run ninth_reindeer_signals init) = 9 \<and>
   count_ev arrives_reindeer (trace ninth_reindeer_signals init) = 9 \<and>
   count_ev signals_reindeer (trace ninth_reindeer_signals init) = 0 \<and>
   count_ev arrives_reindeer (trace nine_reindeer_arrive init) = 9 \<and>
   count_ev signals_reindeer (trace nine_reindeer_arrive init) = 1 \<and>
   signals_elf (Elf 2) (run third_elf_signals init) \<and>
   elfMutex (run third_elf_signals init) = Some (Elf 2) \<and>
   elfCount (run third_elf_signals init) = 3 \<and>
   waitingElves (run third_elf_signals init) = 0 \<and>
   count_ev arrives_elf (trace six_elves_arrive init) = 6 \<and>
   count_ev signals_elf (trace six_elves_arrive init) = 2"
proof -
  have p: "openR (run ninth_reindeer_signals init) = 9"
    "count_ev signals_reindeer (trace ninth_reindeer_signals init) = 0"
    "signals_reindeer (Reindeer 8) (run ninth_reindeer_signals init)"
    by code_simp+
  have n: "count_ev signals_reindeer (trace nine_reindeer_arrive init) = 1"
    "openR (run nine_reindeer_arrive init) = 0"
    by code_simp+
  have e: "count_ev signals_elf (trace six_elves_arrive init) = 2"
    "openE (run six_elves_arrive init) = 0"
    "signals_elf (Elf 2) (run third_elf_signals init)"
    by code_simp+
  let ?s = "run ninth_reindeer_signals init"
  from last_arrival_signals_once [of ninth_reindeer_signals "Reindeer 8"] p(1)
  have pend: "signal_pendingR (reindeerMutex ?s) (rpc ?s)"
    unfolding Let_def by simp
  from last_arrival_signals_once [of ninth_reindeer_signals "Reindeer 8"] p(3)
  have own: "reindeerMutex ?s = Some (Reindeer 8) \<and> reindeerCount ?s = 9"
    unfolding Let_def by simp
  from last_arrival_signals_once [of ninth_reindeer_signals "Reindeer 8"] p
  have a1: "count_ev arrives_reindeer (trace ninth_reindeer_signals init) = 9"
    unfolding Let_def by simp
  from last_arrival_signals_once [of nine_reindeer_arrive Santa] n
  have a2: "count_ev arrives_reindeer (trace nine_reindeer_arrive init) = 9"
    unfolding Let_def by simp
  from last_arrival_signals_once [of six_elves_arrive Santa] e
  have a3: "count_ev arrives_elf (trace six_elves_arrive init) = 6"
    unfolding Let_def by simp
  from last_arrival_signals_once [of third_elf_signals "Elf 2"] e
  have a4: "elfMutex (run third_elf_signals init) = Some (Elf 2) \<and>
      elfCount (run third_elf_signals init) = 3 \<and>
      waitingElves (run third_elf_signals init) = 0"
    unfolding Let_def by simp
  from pend own a1 a2 a3 a4 p n e show ?thesis by blast
qed




text \<open>
  Claim C6, as the specification states it, fails: when Santa is about to perform its
  first service action (line 82), the nine posts of \<^verbatim>\<open>reindeerSem\<close> have already been
  made.
\<close>

theorem release_before_first_service:
  "spc (run santa_about_to_deliver init) = S_SleepR \<and>
   count_ev service_reindeer (trace santa_about_to_deliver init) = 0 \<and>
   count_ev posts_reindeerSem (trace santa_about_to_deliver init) = 9 \<and>
   reindeerSem (run santa_about_to_deliver init) = 9"
  by code_simp

text \<open>
  Claim C6, amended (release, then service). In every run the posts of \<^verbatim>\<open>reindeerSem\<close>
  are 9 for each delivery step performed, plus the posts Santa has made in the pass it
  is in and whose delivery step is still to come: when Santa stands at the delivery step
  of line 82, the 9 posts of this pass are done. The same holds of \<^verbatim>\<open>elfSem\<close>, 3 and
  the consultation step of line 104. From the service step Santa is back at the head of
  its loop (line 64) after three statements: the service step, the increment of the
  statistics counter and the post of \<^verbatim>\<open>santaMutex\<close>.
\<close>

theorem release_precedes_service:
  "let s = run sched init; tr = trace sched init in
     count_ev posts_reindeerSem tr =
       NUM_REINDEER * count_ev service_reindeer tr + aheadR (spc s) \<and>
     count_ev posts_elfSem tr =
       ELF_GROUP_SIZE * count_ev service_elves tr + aheadE (spc s) \<and>
     (spc s = S_SleepR \<or> spc s = S_SleepE \<longrightarrow>
        spc (run [Santa, Santa, Santa] s) = S_WaitSanta)"
proof -
  have acc:
    "count_ev posts_reindeerSem (trace sched init) =
       NUM_REINDEER * count_ev service_reindeer (trace sched init) + aheadR (spc (run sched init)) \<and>
     count_ev posts_elfSem (trace sched init) =
       ELF_GROUP_SIZE * count_ev service_elves (trace sched init) + aheadE (spc (run sched init))"
  proof (induction sched rule: rev_induct)
    case Nil
    show ?case by (simp add: count_ev_def init_def)
  next
    case (snoc t sched)
    have i: "protocol_inv (run sched init)" by (rule inv_reachable)
    from snoc aheadR_step [OF i, of t] aheadE_step [OF i, of t]
    show ?case
      unfolding run_snoc trace_snoc count_ev_snoc by (simp split: if_splits)
  qed
  with santa_loops_after_service [of "run sched init"] show ?thesis
    unfolding Let_def by blast
qed

theorem release_precedes_service_witness:
  "spc (run santa_about_to_deliver init) = S_SleepR \<and>
   count_ev service_reindeer (trace santa_about_to_deliver init) = 0 \<and>
   count_ev posts_reindeerSem (trace santa_about_to_deliver init) = 9 \<and>
   spc (run [Santa, Santa, Santa] (run santa_about_to_deliver init)) = S_WaitSanta \<and>
   spc (run santa_about_to_consult init) = S_SleepE \<and>
   count_ev service_elves (trace santa_about_to_consult init) = 0 \<and>
   count_ev posts_elfSem (trace santa_about_to_consult init) = 3 \<and>
   spc (run [Santa, Santa, Santa] (run santa_about_to_consult init)) = S_WaitSanta"
proof -
  have r: "spc (run santa_about_to_deliver init) = S_SleepR"
    "count_ev service_reindeer (trace santa_about_to_deliver init) = 0"
    by code_simp+
  have e: "spc (run santa_about_to_consult init) = S_SleepE"
    "count_ev service_elves (trace santa_about_to_consult init) = 0"
    by code_simp+
  from release_precedes_service [of santa_about_to_deliver]
    release_precedes_service [of santa_about_to_consult] r e
  show ?thesis unfolding Let_def by simp
qed

text \<open>
  Claim C7 (the statistics). In every run \<^verbatim>\<open>deliveries\<close> is the number of delivery
  steps Santa has performed, less one while the increment of line 83 is still to come,
  and \<^verbatim>\<open>elfConsultations\<close> is the number of consultation steps, less one while the
  increment of line 105 is still to come. Neither counter ever decreases, whatever the
  continuation of the run. A step that changes one of them is a step of Santa, and it
  adds exactly 1 to one of them and leaves the other as it is. The statement Santa
  executes after the delivery step is the increment of line 83, which adds 1 to
  \<^verbatim>\<open>deliveries\<close>, leaves \<^verbatim>\<open>elfConsultations\<close> as it is and takes Santa to line 113; the
  statement after the consultation step is the increment of line 105, which adds 1 to
  \<^verbatim>\<open>elfConsultations\<close>, leaves \<^verbatim>\<open>deliveries\<close> as it is and takes Santa to line 113.
\<close>

theorem service_counters:
  "let s = run sched init; tr = trace sched init in
     int (count_ev service_reindeer tr) =
       deliveries s + (if spc s = S_IncDeliveries then 1 else 0) \<and>
     int (count_ev service_elves tr) =
       elfConsultations s + (if spc s = S_IncConsult then 1 else 0) \<and>
     deliveries s \<le> deliveries (run rest s) \<and>
     elfConsultations s \<le> elfConsultations (run rest s) \<and>
     (deliveries (step t s) \<noteq> deliveries s \<or> elfConsultations (step t s) \<noteq> elfConsultations s \<longrightarrow>
        t = Santa \<and>
        (deliveries (step t s) = deliveries s + 1 \<and>
           elfConsultations (step t s) = elfConsultations s \<or>
         deliveries (step t s) = deliveries s \<and>
           elfConsultations (step t s) = elfConsultations s + 1)) \<and>
     (spc s = S_SleepR \<longrightarrow> spc (step Santa s) = S_IncDeliveries) \<and>
     (spc s = S_SleepE \<longrightarrow> spc (step Santa s) = S_IncConsult) \<and>
     (spc s = S_IncDeliveries \<longrightarrow>
        deliveries (step Santa s) = deliveries s + 1 \<and>
        elfConsultations (step Santa s) = elfConsultations s \<and>
        spc (step Santa s) = S_PostMutex) \<and>
     (spc s = S_IncConsult \<longrightarrow>
        elfConsultations (step Santa s) = elfConsultations s + 1 \<and>
        deliveries (step Santa s) = deliveries s \<and>
        spc (step Santa s) = S_PostMutex)"
  unfolding Let_def
  using service_accounting [of sched] counters_run [of "run sched init" rest]
    counters_step [of "run sched init" t] service_then_increment [of "run sched init"]
  by blast

theorem service_counters_witness:
  "spc (run santa_about_to_deliver init) = S_SleepR \<and>
   spc (step Santa (run santa_about_to_deliver init)) = S_IncDeliveries \<and>
   spc (run santa_delivered init) = S_IncDeliveries \<and>
   deliveries (run santa_delivered init) = 0 \<and>
   deliveries (step Santa (run santa_delivered init)) = 1 \<and>
   elfConsultations (step Santa (run santa_delivered init)) = 0 \<and>
   count_ev service_reindeer (trace santa_delivered init) = 1 \<and>
   count_ev service_elves (trace santa_delivered init) = 0 \<and>
   deliveries (run [Santa] (run santa_delivered init)) = 1 \<and>
   spc (run santa_about_to_consult init) = S_SleepE \<and>
   spc (step Santa (run santa_about_to_consult init)) = S_IncConsult \<and>
   spc (run santa_consulted init) = S_IncConsult \<and>
   elfConsultations (run santa_consulted init) = 0 \<and>
   elfConsultations (step Santa (run santa_consulted init)) = 1 \<and>
   deliveries (step Santa (run santa_consulted init)) = 0 \<and>
   count_ev service_elves (trace santa_consulted init) = 1 \<and>
   count_ev service_reindeer (trace santa_consulted init) = 0 \<and>
   elfConsultations (run [Santa] (run santa_consulted init)) = 1 \<and>
   spc (step Santa (run santa_consulted init)) = S_PostMutex"
proof -
  have d: "deliveries (run santa_delivered init) = 0"
    "elfConsultations (run santa_delivered init) = 0"
    "spc (run santa_delivered init) = S_IncDeliveries"
    by code_simp+
  have c: "deliveries (run santa_consulted init) = 0"
    "elfConsultations (run santa_consulted init) = 0"
    "spc (run santa_consulted init) = S_IncConsult"
    by code_simp+
  have b: "spc (run santa_about_to_deliver init) = S_SleepR"
    "spc (run santa_about_to_consult init) = S_SleepE"
    by code_simp+
  from service_counters [of santa_about_to_deliver "[]" Santa] b(1)
  have b1: "spc (step Santa (run santa_about_to_deliver init)) = S_IncDeliveries"
    unfolding Let_def by simp
  from service_counters [of santa_about_to_consult "[]" Santa] b(2)
  have b2: "spc (step Santa (run santa_about_to_consult init)) = S_IncConsult"
    unfolding Let_def by simp
  from service_counters [of santa_delivered "[Santa]" Santa] d
  have d1: "deliveries (step Santa (run santa_delivered init)) = 1 \<and>
      elfConsultations (step Santa (run santa_delivered init)) = 0 \<and>
      count_ev service_reindeer (trace santa_delivered init) = 1 \<and>
      count_ev service_elves (trace santa_delivered init) = 0 \<and>
      deliveries (run [Santa] (run santa_delivered init)) = 1"
    unfolding Let_def by simp
  from service_counters [of santa_consulted "[Santa]" Santa] c
  have c1: "elfConsultations (step Santa (run santa_consulted init)) = 1 \<and>
      deliveries (step Santa (run santa_consulted init)) = 0 \<and>
      count_ev service_elves (trace santa_consulted init) = 1 \<and>
      count_ev service_reindeer (trace santa_consulted init) = 0 \<and>
      elfConsultations (run [Santa] (run santa_consulted init)) = 1 \<and>
      spc (step Santa (run santa_consulted init)) = S_PostMutex"
    unfolding Let_def by simp
  from b b1 b2 d d1 c c1 show ?thesis by simp
qed

text \<open>
  Claim C8 (arrival counters in range). In every reachable state \<^verbatim>\<open>reindeerCount\<close> is
  between 0 and 9 and \<^verbatim>\<open>waitingElves\<close> between 0 and 3. A step that changes
  \<^verbatim>\<open>reindeerCount\<close> is made by the thread that holds \<^verbatim>\<open>reindeerMutex\<close>, and a step
  that changes \<^verbatim>\<open>waitingElves\<close> by the thread that holds \<^verbatim>\<open>elfMutex\<close>.
\<close>

theorem arrival_counts_bounded:
  "let s = run sched init in
     0 \<le> reindeerCount s \<and> reindeerCount s \<le> int NUM_REINDEER \<and>
     0 \<le> waitingElves s \<and> waitingElves s \<le> int ELF_GROUP_SIZE \<and>
     (reindeerCount (step t s) \<noteq> reindeerCount s \<longrightarrow> reindeerMutex s = Some t) \<and>
     (waitingElves (step t s) \<noteq> waitingElves s \<longrightarrow> elfMutex s = Some t)"
proof -
  have i: "protocol_inv (run sched init)" by (rule inv_reachable)
  then have m: "mutexR_inv (run sched init)" "mutexE_inv (run sched init)"
    by (simp_all add: protocol_inv_def)
  from inv_reindeerCount_bounds [OF i] inv_waitingElves_bounds [OF i]
    reindeerCount_writer [OF m(1)] waitingElves_writer [OF m(2)]
  show ?thesis unfolding Let_def by blast
qed

theorem arrival_counts_bounded_witness:
  "reindeerCount (step (Reindeer 0) (run reindeer_at_inc init)) \<noteq>
     reindeerCount (run reindeer_at_inc init) \<and>
   reindeerMutex (run reindeer_at_inc init) = Some (Reindeer 0) \<and>
   waitingElves (step (Elf 0) (run elf_at_inc init)) \<noteq> waitingElves (run elf_at_inc init) \<and>
   elfMutex (run elf_at_inc init) = Some (Elf 0) \<and>
   reindeerCount (run nine_reindeer_arrive init) \<le> 9"
proof -
  have r: "reindeerCount (step (Reindeer 0) (run reindeer_at_inc init)) \<noteq>
      reindeerCount (run reindeer_at_inc init)"
    by code_simp
  have e: "waitingElves (step (Elf 0) (run elf_at_inc init)) \<noteq>
      waitingElves (run elf_at_inc init)"
    by code_simp
  from arrival_counts_bounded [of reindeer_at_inc "Reindeer 0"]
    arrival_counts_bounded [of elf_at_inc "Elf 0"]
    arrival_counts_bounded [of nine_reindeer_arrive Santa] r e
  show ?thesis unfolding Let_def by simp
qed

text \<open>
  Claim C9 (a stale wake-up). In every run, if in its current pass Santa has read a
  value other than 9 at line 70 and a value other than 3 at line 92, then it stands at
  line 109, at line 113 or back at line 64, and no step it has made in this pass has
  changed \<^verbatim>\<open>reindeerSem\<close>, \<^verbatim>\<open>elfSem\<close>, \<^verbatim>\<open>reindeerCount\<close>, \<^verbatim>\<open>elfCount\<close>,
  \<^verbatim>\<open>waitingElves\<close>, \<^verbatim>\<open>deliveries\<close> or \<^verbatim>\<open>elfConsultations\<close>.
\<close>

theorem stale_wakeup_is_noop:
  "let s = run sched init; p = santa_pass (trace sched init) in
     saw_other (int NUM_REINDEER) (reads_reindeerCount p) \<and>
     saw_other (int ELF_GROUP_SIZE) (reads_elfCount p) \<longrightarrow>
       (spc s = S_UnlockE_else \<or> spc s = S_PostMutex \<or> spc s = S_WaitSanta) \<and>
       list_all (\<lambda>a. shared_unchanged a (step Santa a)) p"
proof -
  have pc: "after_noop c \<Longrightarrow> c = S_UnlockE_else \<or> c = S_PostMutex \<or> c = S_WaitSanta" for c
    by (cases c) simp_all
  from noop_rel_reachable [of sched] pc [of "spc (run sched init)"] show ?thesis
    unfolding Let_def noop_rel_def neither_ready_def quiet_def by blast
qed

theorem stale_wakeup_is_noop_witness:
  "saw_other (int NUM_REINDEER)
     (reads_reindeerCount (santa_pass (trace stale_wakeup init))) \<and>
   saw_other (int ELF_GROUP_SIZE) (reads_elfCount (santa_pass (trace stale_wakeup init))) \<and>
   spc (run stale_wakeup init) = S_WaitSanta \<and>
   length (santa_pass (trace stale_wakeup init)) = 8 \<and>
   list_all (\<lambda>a. shared_unchanged a (step Santa a)) (santa_pass (trace stale_wakeup init))"
proof -
  have h: "saw_other (int NUM_REINDEER)
      (reads_reindeerCount (santa_pass (trace stale_wakeup init)))"
    "saw_other (int ELF_GROUP_SIZE) (reads_elfCount (santa_pass (trace stale_wakeup init)))"
    "spc (run stale_wakeup init) = S_WaitSanta"
    "length (santa_pass (trace stale_wakeup init)) = 8"
    by code_simp+
  from stale_wakeup_is_noop [of stale_wakeup] h show ?thesis
    unfolding Let_def by simp
qed

text \<open>
  Claim C10 (\<^verbatim>\<open>elfCount\<close> is a flag). In every reachable state \<^verbatim>\<open>elfCount\<close> is 0 or
  3. A step that changes it is made by the holder of \<^verbatim>\<open>elfMutex\<close>, and it is either
  the elf at line 161, whose increment has made \<^verbatim>\<open>waitingElves\<close> 3, taking it from 0
  to 3, or Santa at line 101, after its three posts of \<^verbatim>\<open>elfSem\<close>, taking it from 3
  to 0.
\<close>

theorem elfCount_is_flag:
  "let s = run sched init in
     (elfCount s = 0 \<or> elfCount s = int ELF_GROUP_SIZE) \<and>
     (elfCount (step t s) \<noteq> elfCount s \<longrightarrow>
        elfMutex s = Some t \<and>
        ((\<exists>j. t = Elf j \<and> epc s j = E_SetCount \<and> waitingElves s = int ELF_GROUP_SIZE \<and>
              elfCount s = 0 \<and> elfCount (step t s) = int ELF_GROUP_SIZE) \<or>
         (t = Santa \<and> spc s = S_ResetE \<and> elfCount s = int ELF_GROUP_SIZE \<and>
              elfCount (step t s) = 0)))"
proof -
  have i: "protocol_inv (run sched init)" by (rule inv_reachable)
  then have "elfCount (run sched init) = 0 \<or> elfCount (run sched init) = int ELF_GROUP_SIZE"
    by (simp add: protocol_inv_def valE_inv_def)
  with elfCount_writer [OF i] show ?thesis unfolding Let_def by blast
qed

theorem elfCount_is_flag_witness:
  "elfCount (step (Elf 2) (run third_elf_sets_flag init)) \<noteq>
     elfCount (run third_elf_sets_flag init) \<and>
   elfMutex (run third_elf_sets_flag init) = Some (Elf 2) \<and>
   elfCount (step (Elf 2) (run third_elf_sets_flag init)) = 3 \<and>
   elfCount (step Santa (run santa_clears_flag init)) \<noteq> elfCount (run santa_clears_flag init) \<and>
   elfMutex (run santa_clears_flag init) = Some Santa \<and>
   elfCount (step Santa (run santa_clears_flag init)) = 0"
proof -
  have e: "elfCount (step (Elf 2) (run third_elf_sets_flag init)) \<noteq>
      elfCount (run third_elf_sets_flag init)"
    by code_simp
  have s: "elfCount (step Santa (run santa_clears_flag init)) \<noteq>
      elfCount (run santa_clears_flag init)"
    by code_simp
  from elfCount_is_flag [of third_elf_sets_flag "Elf 2"]
    elfCount_is_flag [of santa_clears_flag Santa] e s
  show ?thesis unfolding Let_def by auto
qed

end
